theory Spec2Isabelle
  imports Main "HOL-Library.Word"
begin

section \<open>Paths: the parts of path/filepath that tailfs.go calls\<close>

text \<open>
  Go strings are byte sequences; they are modelled as \<^typ>\<open>string\<close>. The program
  runs on a Unix system, so the path separator is the slash.
\<close>

definition Separator :: char where
  "Separator = CHR ''/''"

text \<open>\<open>strings.Split(p, "/")\<close>: the elements between separators, empty ones kept.\<close>

fun split_sep :: "string \<Rightarrow> string list" where
  "split_sep [] = [[]]"
| "split_sep (c # cs) =
     (if c = Separator then [] # split_sep cs
      else (case split_sep cs of [] \<Rightarrow> [[c]] | x # xs \<Rightarrow> (c # x) # xs))"

text \<open>\<open>strings.Join(elems, "/")\<close>.\<close>

fun join_sep :: "string list \<Rightarrow> string" where
  "join_sep [] = []"
| "join_sep [e] = e"
| "join_sep (e # es) = e @ Separator # join_sep es"

text \<open>
  \<open>filepath.Clean\<close>, element by element. \<open>st\<close> is the output written so far, last
  element first. An empty element and \<open>.\<close> are dropped; \<open>..\<close> removes the element
  before it when there is one to remove, is dropped at the root, and is kept at the
  start of a relative path.
\<close>

fun clean_elems :: "bool \<Rightarrow> string list \<Rightarrow> string list \<Rightarrow> string list" where
  "clean_elems rooted st [] = rev st"
| "clean_elems rooted st (e # es) =
     (if e = [] \<or> e = ''.'' then clean_elems rooted st es
      else if e = ''..'' then
        (case st of
           [] \<Rightarrow> if rooted then clean_elems rooted [] es
                 else clean_elems rooted [''..''] es
         | t # ts \<Rightarrow> if t = ''..'' then clean_elems rooted (''..'' # st) es
                     else clean_elems rooted ts es)
      else clean_elems rooted (e # st) es)"

definition Clean :: "string \<Rightarrow> string" where
  "Clean path =
     (if path = [] then ''.''
      else
        let rooted = (hd path = Separator);
            out = (if rooted then [Separator] else []) @
                  join_sep (clean_elems rooted [] (split_sep path))
        in if out = [] then ''.'' else out)"

text \<open>
  \<open>filepath.Join\<close>: empty leading elements are skipped, the rest is joined with the
  separator and cleaned; when every element is empty the result is the empty string.
\<close>

fun filepath_Join :: "string list \<Rightarrow> string" where
  "filepath_Join [] = []"
| "filepath_Join (e # es) =
     (if e \<noteq> [] then Clean (join_sep (e # es)) else filepath_Join es)"

text \<open>
  \<open>cleaned rooted leading es\<close>: the elements \<open>es\<close> are what \<open>filepath.Clean\<close> leaves: none
  is empty, \<open>.\<close> or holds a separator, and \<open>..\<close> occurs only in a leading block of a
  path that is not rooted. \<open>leading\<close> says that only \<open>..\<close> came before.
\<close>

fun cleaned :: "bool \<Rightarrow> bool \<Rightarrow> string list \<Rightarrow> bool" where
  "cleaned rooted leading [] = True"
| "cleaned rooted leading (e # es) =
     (e \<noteq> [] \<and> e \<noteq> ''.'' \<and> Separator \<notin> set e \<and>
      (if e = ''..'' then leading \<and> \<not> rooted \<and> cleaned rooted True es
       else cleaned rooted False es))"

section \<open>Directory descriptors\<close>

type_synonym FileMode = "32 word"

text \<open>The octal literals of the source: \<open>0755\<close> and \<open>0644\<close>.\<close>

definition mode_0755 :: FileMode where
  "mode_0755 = 7 * 64 + 5 * 8 + 5"

definition mode_0644 :: FileMode where
  "mode_0644 = 6 * 64 + 4 * 8 + 4"

record directorySetting =
  Setting :: string
  AbsolutePath :: string
  path :: string
  perm :: FileMode

text \<open>A composite literal that names only some fields leaves the others zero.\<close>

definition mkSetting :: "string \<Rightarrow> string \<Rightarrow> FileMode \<Rightarrow> directorySetting" where
  "mkSetting name p m = \<lparr>Setting = name, AbsolutePath = [], path = p, perm = m\<rparr>"

definition directorySettings :: "directorySetting list" where
  "directorySettings =
     [mkSetting ''state directory'' [] mode_0755,
      mkSetting ''log file'' ''log'' mode_0755,
      mkSetting ''pid directory'' ''pid'' mode_0755,
      mkSetting ''lock directory'' ''private'' mode_0755,
      mkSetting ''private dir'' ''private'' mode_0755,
      mkSetting ''binddns dir'' ''bind-dns'' mode_0755,
      mkSetting ''cache directory'' ''cache'' mode_0755,
      mkSetting ''ncalrpc dir'' ''ncalrpc'' mode_0755,
      mkSetting ''ntp signed socket directory'' ''ntp_signd'' mode_0755,
      mkSetting ''usershare path'' ''usershares'' mode_0755,
      mkSetting ''winbdd socket directory'' ''winbindd'' mode_0755]"

section \<open>Errors\<close>

datatype errno = ENOENT | ENOTDIR | EEXIST | EISDIR | EACCES | EIO | ENOSPC | EMFILE
  | EADDRNOTAVAIL

text \<open>
  Go errors are values. \<open>PathError op p e\<close> is \<open>*fs.PathError\<close>, \<open>OpError\<close> is
  \<open>*net.OpError\<close>, \<open>SyscallError\<close> is \<open>*os.SyscallError\<close>, \<open>ExitError code\<close> is
  \<open>*exec.ExitError\<close> (the process ran and exited with a non-zero status) and
  \<open>ErrorString\<close> is an error made by \<open>errors.New\<close>.
  \<open>Errorf msg err\<close> is \<open>fmt.Errorf("<msg>: %w", err)\<close>: \<open>msg\<close> is the formatted
  text before the colon and \<open>err\<close> the wrapped error.
\<close>

datatype error =
    PathError string string errno
  | OpError string errno
  | SyscallError string errno
  | ExitError int
  | ErrorString string
  | TemplateError string
  | Errorf string error

text \<open>
  \<open>os.IsNotExist\<close> looks at the error itself (it does not unwrap \<open>%w\<close>): true for
  a path or syscall error whose cause is \<open>ENOENT\<close>.
\<close>

fun os_IsNotExist :: "error \<Rightarrow> bool" where
  "os_IsNotExist (PathError opn p e) = (e = ENOENT)"
| "os_IsNotExist (SyscallError opn e) = (e = ENOENT)"
| "os_IsNotExist _ = False"

section \<open>The operating system as explicit state\<close>

text \<open>
  A node of the file system: a directory, or a file with its content. The mode of a
  node is the mode that was passed to the call that made it (the umask of the process
  is not modelled).
\<close>

datatype node = Dir FileMode | File FileMode string

fun IsDir :: "node \<Rightarrow> bool" where
  "IsDir (Dir m) = True"
| "IsDir (File m c) = False"

datatype oflag = O_WRONLY | O_CREATE

record Cmd =
  Path :: string
  Args :: "string list"

datatype goroutine = CopyStdout | CopyStderr | Supervise Cmd

text \<open>One event for every library call of the source that reaches the system.\<close>

datatype event =
    EvMkdirAll string FileMode
  | EvStat string
  | EvOpenFile string "oflag list" FileMode
  | EvExecute string
  | EvClose string
  | EvListen string string
  | EvListenerClose int
  | EvCommand string "string list"
  | EvStdoutPipe
  | EvStderrPipe
  | EvGo goroutine

text \<open>
  What happens at one \<open>cmd.Run()\<close>: the process runs and exits with a status, or it
  is not started and \<open>Run\<close> returns the error given (the executable is missing, or
  the exec package refuses because a process of this \<open>Cmd\<close> was started before).
\<close>

datatype run_result = Exited int | NotStarted error

text \<open>
  The state of the machine the program runs on.
  \<^item> \<open>fs\<close>: the file system, from cleaned path to node (no symbolic links);
  \<^item> \<open>fault\<close>: the paths the system refuses to access, with the error it gives
    (permission denied, I/O error, a missing parent directory, ...);
  \<^item> \<open>write_fault\<close>: the files whose writes fail;
  \<^item> \<open>listen_result\<close>: what binding port 0 on loopback gives, an error or the
    port the system assigns;
  \<^item> \<open>stdout_pipe_fault\<close>, \<open>stderr_pipe_fault\<close>: whether creating the pipe fails;
  \<^item> \<open>launch\<close>: what the n-th \<open>Run\<close> of a command with the given path does;
  \<^item> \<open>listening\<close>: the ports with an open listener of this process;
  \<^item> \<open>trace\<close>: the calls made so far.
\<close>

record world =
  fs :: "string \<Rightarrow> node option"
  fault :: "string \<Rightarrow> errno option"
  write_fault :: "string \<Rightarrow> errno option"
  listen_result :: "errno + int"
  stdout_pipe_fault :: "errno option"
  stderr_pipe_fault :: "errno option"
  launch :: "string \<Rightarrow> nat \<Rightarrow> run_result"
  listening :: "int list"
  trace :: "event list"

definition emit :: "event \<Rightarrow> world \<Rightarrow> world" where
  "emit ev w = w\<lparr>trace := trace w @ [ev]\<rparr>"

text \<open>What the system answers for a path: the node there, or why not. The empty path
  names nothing.\<close>

definition lookup :: "world \<Rightarrow> string \<Rightarrow> errno + node" where
  "lookup w p =
     (if p = [] then Inl ENOENT
      else case fault w (Clean p) of
             Some e \<Rightarrow> Inl e
           | None \<Rightarrow> (case fs w (Clean p) of None \<Rightarrow> Inl ENOENT | Some n \<Rightarrow> Inr n))"

definition os_Stat :: "world \<Rightarrow> string \<Rightarrow> (error + node) \<times> world" where
  "os_Stat w p =
     (case lookup w p of
        Inl e \<Rightarrow> (Inl (PathError ''stat'' p e), emit (EvStat p) w)
      | Inr n \<Rightarrow> (Inr n, emit (EvStat p) w))"

text \<open>The \<open>mkdir\<close> system call: one directory, which must not exist yet.\<close>

definition mkdir :: "world \<Rightarrow> string \<Rightarrow> FileMode \<Rightarrow> errno option \<times> world" where
  "mkdir w p m =
     (if p = [] then (Some ENOENT, w)
      else case fault w (Clean p) of
             Some e \<Rightarrow> (Some e, w)
           | None \<Rightarrow>
               (case fs w (Clean p) of
                  Some n \<Rightarrow> (Some EEXIST, w)
                | None \<Rightarrow> (None, w\<lparr>fs := (fs w)(Clean p \<mapsto> Dir m)\<rparr>)))"

text \<open>
  The parent that \<open>os.MkdirAll\<close> recurses on: trailing separators are removed, then
  the last element, then the separator before it.
\<close>

definition mkdir_parent :: "string \<Rightarrow> string" where
  "mkdir_parent p =
     rev (drop 1 (dropWhile (\<lambda>c. c \<noteq> Separator) (dropWhile (\<lambda>c. c = Separator) (rev p))))"

text \<open>
  \<open>os.MkdirAll\<close>: nothing to do when the path is a directory already, an error when
  it is a file; otherwise the parent first, then the directory itself, and a failed
  \<open>mkdir\<close> is forgiven when the directory is there after all.
\<close>

function mkdir_all :: "world \<Rightarrow> string \<Rightarrow> FileMode \<Rightarrow> error option \<times> world" where
  "mkdir_all w p m =
     (case lookup w p of
        Inr n \<Rightarrow>
          if IsDir n then (None, w) else (Some (PathError ''mkdir'' p ENOTDIR), w)
      | Inl e0 \<Rightarrow>
          (case (if mkdir_parent p \<noteq> [] then mkdir_all w (mkdir_parent p) m
                 else (None, w)) of
             (Some err, w1) \<Rightarrow> (Some err, w1)
           | (None, w1) \<Rightarrow>
               (case mkdir w1 p m of
                  (None, w2) \<Rightarrow> (None, w2)
                | (Some e, w2) \<Rightarrow>
                    (case lookup w2 p of
                       Inr n \<Rightarrow>
                         if IsDir n then (None, w2)
                         else (Some (PathError ''mkdir'' p e), w2)
                     | Inl e1 \<Rightarrow> (Some (PathError ''mkdir'' p e), w2)))))"
  by pat_completeness auto
termination
proof (relation "measure (\<lambda>(w, p, m). length p)")
  show "wf (measure (\<lambda>(w, p, m). length p))" by simp
next
  fix w :: world and p :: string and m :: FileMode and e0 :: errno
  assume "mkdir_parent p \<noteq> []"
  then have ne: "p \<noteq> []" by (auto simp: mkdir_parent_def)
  define a where "a = dropWhile (\<lambda>c. c = Separator) (rev p)"
  define b where "b = dropWhile (\<lambda>c. c \<noteq> Separator) a"
  have a: "length a \<le> length p"
    unfolding a_def using length_dropWhile_le [of "\<lambda>c. c = Separator" "rev p"] by simp
  have b: "length b \<le> length a"
    unfolding b_def by (rule length_dropWhile_le)
  have mp: "length (mkdir_parent p) = length (drop 1 b)"
    unfolding mkdir_parent_def a_def b_def by simp
  have "length (mkdir_parent p) < length p"
  proof (cases "b = []")
    case True
    with ne mp show ?thesis by simp
  next
    case False
    then have "length (drop 1 b) < length b" by (cases b) simp_all
    with a b mp show ?thesis by linarith
  qed
  then show "((w, mkdir_parent p, m), (w, p, m)) \<in> measure (\<lambda>(w, p, m). length p)"
    by simp
qed

declare mkdir_all.simps [simp del]

definition os_MkdirAll :: "world \<Rightarrow> string \<Rightarrow> FileMode \<Rightarrow> error option \<times> world" where
  "os_MkdirAll w p m =
     (case mkdir_all w p m of (r, w1) \<Rightarrow> (r, emit (EvMkdirAll p m) w1))"

record OsFile =
  fname :: string

text \<open>
  \<open>os.OpenFile\<close> for writing: an existing file is opened as it is, a missing one is
  created empty with the given mode when \<open>O_CREATE\<close> is among the flags.
\<close>

definition os_OpenFile ::
  "world \<Rightarrow> string \<Rightarrow> oflag list \<Rightarrow> FileMode \<Rightarrow> (error + OsFile) \<times> world" where
  "os_OpenFile w p flags m =
     (let w0 = emit (EvOpenFile p flags m) w in
      case lookup w p of
        Inr (Dir dm) \<Rightarrow> (Inl (PathError ''open'' p EISDIR), w0)
      | Inr (File fm c) \<Rightarrow> (Inr \<lparr>fname = p\<rparr>, w0)
      | Inl e \<Rightarrow>
          if e = ENOENT \<and> p \<noteq> [] \<and> fault w (Clean p) = None \<and> O_CREATE \<in> set flags
          then (Inr \<lparr>fname = p\<rparr>, w0\<lparr>fs := (fs w0)(Clean p \<mapsto> File m [])\<rparr>)
          else (Inl (PathError ''open'' p e), w0))"

definition file_Close :: "world \<Rightarrow> OsFile \<Rightarrow> world" where
  "file_Close w f = emit (EvClose (fname f)) w"

definition file_Write :: "world \<Rightarrow> OsFile \<Rightarrow> string \<Rightarrow> error option \<times> world" where
  \<comment> \<open>The first write through a fresh handle: at offset 0, over what is there.\<close>
  "file_Write w f data =
     (case write_fault w (Clean (fname f)) of
        Some e \<Rightarrow> (Some (PathError ''write'' (fname f) e), w)
      | None \<Rightarrow>
          (case fs w (Clean (fname f)) of
             Some (File fm c) \<Rightarrow>
               (None, w\<lparr>fs := (fs w)(Clean (fname f) \<mapsto> File fm (data @ drop (length data) c))\<rparr>)
           | Some (Dir dm) \<Rightarrow> (Some (PathError ''write'' (fname f) EIO), w)
           | None \<Rightarrow> (Some (PathError ''write'' (fname f) EIO), w)))"

section \<open>text/template, as far as smbConfTemplate uses it\<close>

definition NL :: char where
  "NL = CHR 0x0A"

definition TAB :: char where
  "TAB = CHR 0x09"

definition smbConfTemplate :: string where
  "smbConfTemplate =
     NL # ''[global]'' @
     NL # ''        server role     = standalone server'' @
     NL # ''        interfaces      = 127.0.0.1'' @
     NL # ''        registry shares = no'' @
     NL # ''        config backend  = file'' @
     NL # TAB # TAB # ''log level       = 5'' @
     NL # ''        {{ range . }}'' @
     NL # ''        {{ .Setting }} = {{ .AbsolutePath }}'' @
     NL # ''        {{ end }}'' @
     [NL]"

datatype item = IText string | IAction string

text \<open>
  The lexer: text up to \<open>{{\<close>, then an action up to \<open>}}\<close>. The flag says whether the
  input is inside an action; \<open>acc\<close> is what has been read of the current item, last
  byte first.
\<close>

fun flush_text :: "string \<Rightarrow> item list" where
  "flush_text acc = (if acc = [] then [] else [IText (rev acc)])"

fun lex :: "bool \<Rightarrow> string \<Rightarrow> string \<Rightarrow> error + item list" where
  "lex False acc [] = Inr (flush_text acc)"
| "lex True acc [] = Inl (TemplateError ''unclosed action'')"
| "lex False acc [c] = Inr (flush_text (c # acc))"
| "lex True acc [c] = Inl (TemplateError ''unclosed action'')"
| "lex False acc (c # d # ds) =
     (if c = CHR ''{'' \<and> d = CHR ''{'' then
        (case lex True [] ds of
           Inl e \<Rightarrow> Inl e
         | Inr its \<Rightarrow> Inr (flush_text acc @ its))
      else lex False (c # acc) (d # ds))"
| "lex True acc (c # d # ds) =
     (if c = CHR ''}'' \<and> d = CHR ''}'' then
        (case lex False [] ds of
           Inl e \<Rightarrow> Inl e
         | Inr its \<Rightarrow> Inr (IAction (rev acc) # its))
      else lex True (c # acc) (d # ds))"

text \<open>The words of an action: split at spaces, empty words dropped.\<close>

fun action_words :: "string \<Rightarrow> string \<Rightarrow> string list" where
  "action_words acc [] = (if acc = [] then [] else [rev acc])"
| "action_words acc (c # cs) =
     (if c = CHR '' '' then (if acc = [] then [] else [rev acc]) @ action_words [] cs
      else action_words (c # acc) cs)"

datatype tnode = TText string | TField string | TRange "tnode list"

text \<open>
  The parser keeps a stack of node lists under construction (last node first), one
  for each open \<open>range\<close>; \<open>end\<close> closes the innermost one.
\<close>

fun parse_items :: "tnode list list \<Rightarrow> item list \<Rightarrow> error + tnode list" where
  "parse_items stack [] =
     (case stack of
        [ns] \<Rightarrow> Inr (rev ns)
      | _ \<Rightarrow> Inl (TemplateError ''unexpected EOF''))"
| "parse_items stack (IText t # its) =
     (case stack of
        [] \<Rightarrow> Inl (TemplateError ''unexpected {{end}}'')
      | ns # rest \<Rightarrow> parse_items ((TText t # ns) # rest) its)"
| "parse_items stack (IAction a # its) =
     (let ws = action_words [] a in
      if ws = [''range'', ''.''] then parse_items ([] # stack) its
      else if ws = [''end''] then
        (case stack of
           body # ns # rest \<Rightarrow> parse_items ((TRange (rev body) # ns) # rest) its
         | _ \<Rightarrow> Inl (TemplateError ''unexpected {{end}}''))
      else
        (case ws of
           [CHR ''.'' # f] \<Rightarrow>
             (case stack of
                [] \<Rightarrow> Inl (TemplateError ''unexpected {{end}}'')
              | ns # rest \<Rightarrow>
                  if f = [] then Inl (TemplateError ''unsupported action'')
                  else parse_items ((TField f # ns) # rest) its)
         | _ \<Rightarrow> Inl (TemplateError ''unsupported action'')))"

definition template_Parse :: "string \<Rightarrow> error + tnode list" where
  "template_Parse text =
     (case lex False [] text of
        Inl e \<Rightarrow> Inl e
      | Inr its \<Rightarrow> parse_items [[]] its)"

text \<open>The data a template sees: strings, structs with their exported fields, slices.\<close>

datatype tvalue = VString string | VStruct "(string \<times> tvalue) list" | VSlice "tvalue list"

fun collect :: "(error + string) list \<Rightarrow> error + string" where
  "collect [] = Inr []"
| "collect (Inl e # rs) = Inl e"
| "collect (Inr x # rs) = (case collect rs of Inl e \<Rightarrow> Inl e | Inr y \<Rightarrow> Inr (x @ y))"

fun exec_node :: "tvalue \<Rightarrow> tnode \<Rightarrow> error + string" where
  "exec_node dot (TText t) = Inr t"
| "exec_node dot (TField f) =
     (case dot of
        VStruct fds \<Rightarrow>
          (case map_of fds f of
             Some (VString v) \<Rightarrow> Inr v
           | Some _ \<Rightarrow> Inl (TemplateError ''unsupported value'')
           | None \<Rightarrow> Inl (TemplateError ''can't evaluate field''))
      | _ \<Rightarrow> Inl (TemplateError ''can't evaluate field''))"
| "exec_node dot (TRange body) =
     (case dot of
        VSlice vs \<Rightarrow> collect (map (\<lambda>v. collect (map (exec_node v) body)) vs)
      | _ \<Rightarrow> Inl (TemplateError ''range can't iterate''))"

definition exec_nodes :: "tvalue \<Rightarrow> tnode list \<Rightarrow> error + string" where
  "exec_nodes dot ns = collect (map (exec_node dot) ns)"

text \<open>A \<open>*directorySetting\<close> as the template sees it: the exported fields only.\<close>

definition setting_value :: "directorySetting \<Rightarrow> tvalue" where
  "setting_value d =
     VStruct [(''Setting'', VString (Setting d)), (''AbsolutePath'', VString (AbsolutePath d))]"

text \<open>
  \<open>tmpl.Execute(file, ds)\<close>: the output is written to the file. The model writes it
  in one piece: a write that fails leaves the file as it was.
\<close>

definition template_Execute ::
  "world \<Rightarrow> tnode list \<Rightarrow> OsFile \<Rightarrow> directorySetting list \<Rightarrow> error option \<times> world" where
  "template_Execute w tmpl f ds =
     (case exec_nodes (VSlice (map setting_value ds)) tmpl of
        Inl e \<Rightarrow> (Some e, emit (EvExecute (fname f)) w)
      | Inr out \<Rightarrow> file_Write (emit (EvExecute (fname f)) w) f out)"

section \<open>The server\<close>

record Opts =
  StateDir :: string
  SMBDCommand :: string

text \<open>\<open>cmd\<close> is a pointer in the source: \<open>None\<close> is nil.\<close>

record Server =
  opts :: Opts
  smbConfPath :: string
  cmd :: "Cmd option"
  Port :: int

subsection \<open>initSMBConfIfNecessary\<close>

text \<open>
  The loop over the descriptors: the absolute path is stored in the descriptor, then
  the directory is made. The first failure ends the loop with the error.
\<close>

fun make_directories ::
  "Server \<Rightarrow> world \<Rightarrow> directorySetting list \<Rightarrow> (error + directorySetting list) \<times> world" where
  "make_directories s w [] = (Inr [], w)"
| "make_directories s w (d # ds) =
     (let d1 = d\<lparr>AbsolutePath := filepath_Join [StateDir (opts s), path d]\<rparr> in
      case os_MkdirAll w (AbsolutePath d1) (perm d1) of
        (Some err, w1) \<Rightarrow> (Inl (Errorf (''create '' @ AbsolutePath d1) err), w1)
      | (None, w1) \<Rightarrow>
          (case make_directories s w1 ds of
             (Inl e, w2) \<Rightarrow> (Inl e, w2)
           | (Inr ds1, w2) \<Rightarrow> (Inr (d1 # ds1), w2)))"

text \<open>The deferred \<open>file.Close()\<close> runs on every return after the file is open.\<close>

definition initSMBConfIfNecessary :: "Server \<Rightarrow> world \<Rightarrow> error option \<times> world" where
  "initSMBConfIfNecessary s w =
     (case os_Stat w (smbConfPath s) of
        (Inr n, w1) \<Rightarrow> (None, w1)
      | (Inl err, w1) \<Rightarrow>
          if \<not> os_IsNotExist err
          then (Some (Errorf (''check '' @ smbConfPath s @ '' exists'') err), w1)
          else
            (case os_OpenFile w1 (smbConfPath s) [O_CREATE, O_WRONLY] mode_0644 of
               (Inl err, w2) \<Rightarrow> (Some (Errorf (''create '' @ smbConfPath s) err), w2)
             | (Inr file, w2) \<Rightarrow>
                 (case template_Parse smbConfTemplate of
                    Inl err \<Rightarrow>
                      (Some (Errorf ''parse smb.conf template'' err), file_Close w2 file)
                  | Inr tmpl \<Rightarrow>
                      (case make_directories s w2 directorySettings of
                         (Inl err, w3) \<Rightarrow> (Some err, file_Close w3 file)
                       | (Inr ds, w3) \<Rightarrow>
                           (case template_Execute w3 tmpl file ds of
                              (Some err, w4) \<Rightarrow>
                                (Some (Errorf ''execute smb.conf template'' err),
                                 file_Close w4 file)
                            | (None, w4) \<Rightarrow> (None, file_Close w4 file))))))"

subsection \<open>start\<close>

record Listener =
  lport :: int

definition net_Listen :: "world \<Rightarrow> string \<Rightarrow> string \<Rightarrow> (error + Listener) \<times> world" where
  "net_Listen w network address =
     (case listen_result w of
        Inl e \<Rightarrow> (Inl (OpError ''listen'' e), emit (EvListen network address) w)
      | Inr p \<Rightarrow>
          (Inr \<lparr>lport = p\<rparr>,
           emit (EvListen network address) (w\<lparr>listening := p # listening w\<rparr>)))"

definition listener_Close :: "world \<Rightarrow> Listener \<Rightarrow> world" where
  "listener_Close w l =
     emit (EvListenerClose (lport l)) (w\<lparr>listening := remove1 (lport l) (listening w)\<rparr>)"

text \<open>\<open>exec.Command\<close>: the argument vector starts with the command's name.\<close>

definition exec_Command :: "world \<Rightarrow> string \<Rightarrow> string list \<Rightarrow> Cmd \<times> world" where
  "exec_Command w name arg = (\<lparr>Path = name, Args = name # arg\<rparr>, emit (EvCommand name arg) w)"

definition cmd_StdoutPipe :: "world \<Rightarrow> Cmd \<Rightarrow> error option \<times> world" where
  "cmd_StdoutPipe w c =
     (case stdout_pipe_fault w of
        Some e \<Rightarrow> (Some (SyscallError ''pipe2'' e), emit EvStdoutPipe w)
      | None \<Rightarrow> (None, emit EvStdoutPipe w))"

definition cmd_StderrPipe :: "world \<Rightarrow> Cmd \<Rightarrow> error option \<times> world" where
  "cmd_StderrPipe w c =
     (case stderr_pipe_fault w of
        Some e \<Rightarrow> (Some (SyscallError ''pipe2'' e), emit EvStderrPipe w)
      | None \<Rightarrow> (None, emit EvStderrPipe w))"

text \<open>The verb \<open>%d\<close> of \<open>fmt.Sprintf\<close> on an int.\<close>

function decimal :: "nat \<Rightarrow> string" where
  "decimal n =
     (if n < 10 then [''0123456789'' ! n]
      else decimal (n div 10) @ [''0123456789'' ! (n mod 10)])"
  by pat_completeness auto
termination
  by (relation "measure (\<lambda>n. n)") auto

declare decimal.simps [simp del]

definition Sprintf_d :: "int \<Rightarrow> string" where
  "Sprintf_d i = (if i < 0 then CHR ''-'' # decimal (nat (- i)) else decimal (nat i))"

text \<open>
  The three \<open>go\<close> statements start goroutines and return at once; what the third one
  does is \<open>supervise\<close> below.
\<close>

definition start :: "Server \<Rightarrow> world \<Rightarrow> error option \<times> Server \<times> world" where
  "start s w =
     (case net_Listen w ''tcp'' ''127.0.0.1:0'' of
        (Inl err, w1) \<Rightarrow> (Some (Errorf ''listen'' err), s, w1)
      | (Inr l, w1) \<Rightarrow>
          (let s1 = s\<lparr>Port := lport l\<rparr>;
               w2 = listener_Close w1 l
           in case exec_Command w2 (SMBDCommand (opts s1))
                     [''--configfile='' @ smbConfPath s1,
                      ''--port='' @ Sprintf_d (Port s1),
                      ''--foreground'',
                      ''--no-process-group'',
                      ''--debug-stdout''] of
                (c, w3) \<Rightarrow>
                  (let s2 = s1\<lparr>cmd := Some c\<rparr> in
                   case cmd_StdoutPipe w3 c of
                     (Some err, w4) \<Rightarrow> (Some (Errorf ''stdout pipe'' err), s2, w4)
                   | (None, w4) \<Rightarrow>
                       (case cmd_StderrPipe w4 c of
                          (Some err, w5) \<Rightarrow> (Some (Errorf ''stderr pipe'' err), s2, w5)
                        | (None, w5) \<Rightarrow>
                            (None, s2,
                             emit (EvGo (Supervise c))
                               (emit (EvGo CopyStderr) (emit (EvGo CopyStdout) w5)))))))"

subsection \<open>Start\<close>

definition Start :: "Opts \<Rightarrow> world \<Rightarrow> (error + Server) \<times> world" where
  "Start os w =
     (case os_MkdirAll w (StateDir os) mode_0755 of
        (Some err, w1) \<Rightarrow> (Inl (Errorf ''create state directory'' err), w1)
      | (None, w1) \<Rightarrow>
          (let s = \<lparr>opts = os,
                    smbConfPath = filepath_Join [StateDir os, ''smb.conf''],
                    cmd = None,
                    Port = 0\<rparr>
           in case initSMBConfIfNecessary s w1 of
                (Some err, w2) \<Rightarrow> (Inl (Errorf ''init smb.conf'' err), w2)
              | (None, w2) \<Rightarrow>
                  (case start s w2 of
                     (Some err, s1, w3) \<Rightarrow> (Inl (Errorf ''start'' err), w3)
                   | (None, s1, w3) \<Rightarrow> (Inr s1, w3))))"

subsection \<open>The supervisor goroutine\<close>

text \<open>\<open>time.Duration\<close> counts nanoseconds.\<close>

definition Second :: nat where
  "Second = 1000000000"

datatype sup_event =
    SupPrintln string
  | SupRun nat
  | SupPrintf string error
  | SupSleep nat

text \<open>The i-th \<open>s.cmd.Run()\<close>: nil when the process ran and exited with status 0.\<close>

definition cmd_Run :: "world \<Rightarrow> Cmd \<Rightarrow> nat \<Rightarrow> error option" where
  "cmd_Run w c i =
     (case launch w (Path c) i of
        Exited code \<Rightarrow> if code = 0 then None else Some (ExitError code)
      | NotStarted err \<Rightarrow> Some err)"

text \<open>One turn of the \<open>for\<close> loop, as the events it produces.\<close>

definition supervise_body :: "world \<Rightarrow> Cmd \<Rightarrow> nat \<Rightarrow> sup_event list" where
  "supervise_body w c i =
     (case cmd_Run w c i of
        Some err \<Rightarrow>
          [SupRun i,
           SupPrintf (''smbd exited, will restart: %v'' @ [NL]) err,
           SupSleep (1 * Second)]
      | None \<Rightarrow> [SupRun i])"

text \<open>
  The loop has no exit. \<open>supervise\<close> is the loop itself, from its i-th turn on, with
  the events so far; a result would be the events of a loop that has returned.
  \<open>supervise_upto\<close> is what the goroutine has done when n turns are over.
\<close>

partial_function (option) supervise ::
  "world \<Rightarrow> Cmd \<Rightarrow> nat \<Rightarrow> sup_event list \<Rightarrow> sup_event list option" where
  "supervise w c i evs = supervise w c (Suc i) (evs @ supervise_body w c i)"

fun supervise_upto :: "world \<Rightarrow> Cmd \<Rightarrow> nat \<Rightarrow> sup_event list" where
  "supervise_upto w c 0 = [SupPrintln ''Running smbd in a loop'']"
| "supervise_upto w c (Suc n) = supervise_upto w c n @ supervise_body w c n"

section \<open>Relations between states, and names for what Start builds\<close>

text \<open>
  \<open>grows M w w1\<close>: from \<open>w\<close> to \<open>w1\<close> no node was removed or changed, every new node
  is a directory with a mode in \<open>M\<close>, and nothing but the file system and the trace
  differs.
\<close>

definition grows :: "FileMode set \<Rightarrow> world \<Rightarrow> world \<Rightarrow> bool" where
  "grows M w w1 \<longleftrightarrow>
     fault w1 = fault w \<and> write_fault w1 = write_fault w \<and>
     listen_result w1 = listen_result w \<and>
     stdout_pipe_fault w1 = stdout_pipe_fault w \<and>
     stderr_pipe_fault w1 = stderr_pipe_fault w \<and>
     launch w1 = launch w \<and> listening w1 = listening w \<and>
     (\<forall>k n. fs w k = Some n \<longrightarrow> fs w1 k = Some n) \<and>
     (\<forall>k. fs w k = None \<longrightarrow> fs w1 k = None \<or> (\<exists>m\<in>M. fs w1 k = Some (Dir m)))"

text \<open>
  \<open>keeps w w1\<close>: from \<open>w\<close> to \<open>w1\<close> every directory stays, and nothing but the file
  system, the open listeners and the trace differs.
\<close>

definition keeps :: "world \<Rightarrow> world \<Rightarrow> bool" where
  "keeps w w1 \<longleftrightarrow>
     fault w1 = fault w \<and> write_fault w1 = write_fault w \<and>
     listen_result w1 = listen_result w \<and>
     stdout_pipe_fault w1 = stdout_pipe_fault w \<and>
     stderr_pipe_fault w1 = stderr_pipe_fault w \<and>
     launch w1 = launch w \<and>
     (\<forall>k m. fs w k = Some (Dir m) \<longrightarrow> fs w1 k = Some (Dir m))"

text \<open>The system never answers a bind to port 0 with port 0: the port of a listener is
  between 1 and 65535.\<close>

definition assigns_real_port :: "world \<Rightarrow> bool" where
  "assigns_real_port w \<longleftrightarrow>
     (case listen_result w of Inl e \<Rightarrow> True | Inr p \<Rightarrow> 0 < p \<and> p < 65536)"

text \<open>The server value that \<open>Start\<close> builds, and the command that \<open>start\<close> builds for a
  server and a port.\<close>

definition new_server :: "Opts \<Rightarrow> Server" where
  "new_server os =
     \<lparr>opts = os, smbConfPath = filepath_Join [StateDir os, ''smb.conf''], cmd = None,
      Port = 0\<rparr>"

definition smbd_args :: "Server \<Rightarrow> int \<Rightarrow> string list" where
  "smbd_args s p =
     [''--configfile='' @ smbConfPath s,
      ''--port='' @ Sprintf_d p,
      ''--foreground'',
      ''--no-process-group'',
      ''--debug-stdout'']"

definition smbd_cmd :: "Server \<Rightarrow> int \<Rightarrow> Cmd" where
  "smbd_cmd s p = \<lparr>Path = SMBDCommand (opts s), Args = SMBDCommand (opts s) # smbd_args s p\<rparr>"

section \<open>Example inputs\<close>

text \<open>Options, and the server as \<open>Start\<close> builds it for them before it has a port.\<close>

definition example_opts :: Opts where
  "example_opts = \<lparr>StateDir = ''/s'', SMBDCommand = ''/usr/sbin/smbd''\<rparr>"

text \<open>Options with a state directory two levels down.\<close>

definition deep_opts :: Opts where
  "deep_opts = \<lparr>StateDir = ''/var/s'', SMBDCommand = ''/usr/sbin/smbd''\<rparr>"

definition example_server :: Server where
  "example_server =
     \<lparr>opts = example_opts, smbConfPath = ''/s/smb.conf'', cmd = None, Port = 0\<rparr>"

text \<open>The command of the server that \<open>Start\<close> returns on the example machine.\<close>

definition example_cmd :: Cmd where
  "example_cmd =
     \<lparr>Path = ''/usr/sbin/smbd'',
      Args = [''/usr/sbin/smbd'', ''--configfile=/s/smb.conf'', ''--port=40123'',
              ''--foreground'', ''--no-process-group'', ''--debug-stdout'']\<rparr>"

text \<open>The server that \<open>Start\<close> returns on the example machine.\<close>

definition example_started :: Server where
  "example_started =
     \<lparr>opts = example_opts, smbConfPath = ''/s/smb.conf'',
      cmd = Some \<lparr>Path = ''/usr/sbin/smbd'',
                  Args = [''/usr/sbin/smbd'', ''--configfile=/s/smb.conf'', ''--port=40123'',
                          ''--foreground'', ''--no-process-group'', ''--debug-stdout'']\<rparr>,
      Port = 40123\<rparr>"

text \<open>A machine with an empty file system on which no system call fails; the daemon
  exits with status 1, and the exec package refuses every later run of the same
  command.\<close>

definition empty_world :: world where
  "empty_world =
     \<lparr>fs = Map.empty, fault = Map.empty, write_fault = Map.empty,
      listen_result = Inr 40123,
      stdout_pipe_fault = None, stderr_pipe_fault = None,
      launch = (\<lambda>p n. if n = 0 then Exited 1
                       else NotStarted (ErrorString ''exec: already started'')),
      listening = [], trace = []\<rparr>"

text \<open>The same machine, with the state directory \<open>/s\<close> and nothing in it.\<close>

definition state_dir_world :: world where
  "state_dir_world = empty_world\<lparr>fs := [''/s'' \<mapsto> Dir mode_0755]\<rparr>"

text \<open>The state directory is there; the system refuses access to the configuration
  path.\<close>

definition stat_denied_world :: world where
  "stat_denied_world = state_dir_world\<lparr>fault := [''/s/smb.conf'' \<mapsto> EACCES]\<rparr>"

text \<open>The system refuses access to \<open>/s\<close>.\<close>

definition state_denied_world :: world where
  "state_denied_world = empty_world\<lparr>fault := [''/s'' \<mapsto> EACCES]\<rparr>"

text \<open>The state directory is there, and in it a file named \<open>pid\<close>.\<close>

definition pid_file_world :: world where
  "pid_file_world =
     empty_world\<lparr>fs := [''/s'' \<mapsto> Dir mode_0755, ''/s/pid'' \<mapsto> File mode_0644 []]\<rparr>"

text \<open>The state directory is there, and in it an empty configuration file.\<close>

definition conf_present_world :: world where
  "conf_present_world =
     empty_world\<lparr>fs := [''/s'' \<mapsto> Dir mode_0755, ''/s/smb.conf'' \<mapsto> File mode_0644 []]\<rparr>"

text \<open>The same machine, where no port can be bound.\<close>

definition no_port_world :: world where
  "no_port_world = empty_world\<lparr>listen_result := Inl EADDRNOTAVAIL\<rparr>"

text \<open>The same machine, where the daemon's executable is missing.\<close>

definition no_smbd_world :: world where
  "no_smbd_world =
     empty_world\<lparr>launch := (\<lambda>p n. NotStarted (PathError ''fork/exec'' p ENOENT))\<rparr>"

text \<open>The same machine, where the daemon exits with status 0.\<close>

definition clean_exit_world :: world where
  "clean_exit_world =
     empty_world\<lparr>launch := (\<lambda>p n. if n = 0 then Exited 0
                       else NotStarted (ErrorString ''exec: already started''))\<rparr>"

section \<open>Lemmas on the system calls\<close>

lemma emit_simps [simp]:
  "fs (emit ev w) = fs w"
  "fault (emit ev w) = fault w"
  "write_fault (emit ev w) = write_fault w"
  "listen_result (emit ev w) = listen_result w"
  "stdout_pipe_fault (emit ev w) = stdout_pipe_fault w"
  "stderr_pipe_fault (emit ev w) = stderr_pipe_fault w"
  "launch (emit ev w) = launch w"
  "listening (emit ev w) = listening w"
  "trace (emit ev w) = trace w @ [ev]"
  by (simp_all add: emit_def)

lemma lookup_emit [simp]: "lookup (emit ev w) p = lookup w p"
  by (simp add: lookup_def split: option.splits)

lemma lookup_cong_fs: "fs w1 = fs w \<Longrightarrow> fault w1 = fault w \<Longrightarrow> lookup w1 p = lookup w p"
  by (simp add: lookup_def split: option.splits)


lemma grows_refl: "grows M w w"
  by (simp add: grows_def)

lemma grows_emit: "grows M w (emit ev w)"
  by (simp add: grows_def)

lemma grows_fields:
  assumes "grows M w w1"
  shows "fault w1 = fault w" and "write_fault w1 = write_fault w"
    and "listen_result w1 = listen_result w"
    and "stdout_pipe_fault w1 = stdout_pipe_fault w"
    and "stderr_pipe_fault w1 = stderr_pipe_fault w"
    and "launch w1 = launch w" and "listening w1 = listening w"
  using assms by (simp_all add: grows_def)

lemma grows_old: "grows M w w1 \<Longrightarrow> fs w k = Some n \<Longrightarrow> fs w1 k = Some n"
  by (simp add: grows_def)

lemma grows_new:
  "grows M w w1 \<Longrightarrow> fs w k = None \<Longrightarrow> fs w1 k = None \<or> (\<exists>m\<in>M. fs w1 k = Some (Dir m))"
  by (simp add: grows_def)

lemma grows_trans:
  assumes a: "grows M w w1" and b: "grows N w1 w2"
  shows "grows (M \<union> N) w w2"
proof -
  have old: "fs w2 k = Some n" if "fs w k = Some n" for k n
    using grows_old [OF b grows_old [OF a that]] .
  have new: "fs w2 k = None \<or> (\<exists>m\<in>M \<union> N. fs w2 k = Some (Dir m))" if "fs w k = None" for k
  proof (cases "fs w1 k")
    case None
    from grows_new [OF b None] show ?thesis by auto
  next
    case (Some n)
    with grows_new [OF a that] obtain m where "m \<in> M" "fs w1 k = Some (Dir m)" by auto
    with grows_old [OF b] show ?thesis by auto
  qed
  from a b have "fault w2 = fault w" "write_fault w2 = write_fault w"
    "listen_result w2 = listen_result w" "stdout_pipe_fault w2 = stdout_pipe_fault w"
    "stderr_pipe_fault w2 = stderr_pipe_fault w" "launch w2 = launch w"
    "listening w2 = listening w"
    by (simp_all add: grows_def)
  with old new show ?thesis unfolding grows_def by blast
qed

lemma grows_mono: "grows M w w1 \<Longrightarrow> M \<subseteq> N \<Longrightarrow> grows N w w1"
  unfolding grows_def by blast

lemma grows_lookup_Inr:
  assumes g: "grows M w w1" and l: "lookup w p = Inr n"
  shows "lookup w1 p = Inr n"
proof -
  from l have p: "p \<noteq> []" and f: "fault w (Clean p) = None" and n: "fs w (Clean p) = Some n"
    by (auto simp: lookup_def split: if_splits option.splits)
  from grows_old [OF g n] f p grows_fields(1) [OF g] show ?thesis
    by (simp add: lookup_def)
qed

lemma grows_lookup_new:
  assumes g: "grows M w w1" and l: "lookup w p = Inl ENOENT" and l1: "lookup w1 p = Inr n"
  shows "\<exists>m\<in>M. n = Dir m"
proof -
  from l1 have p: "p \<noteq> []" and f: "fault w1 (Clean p) = None" and n: "fs w1 (Clean p) = Some n"
    by (auto simp: lookup_def split: if_splits option.splits)
  from f grows_fields(1) [OF g] have f0: "fault w (Clean p) = None" by simp
  with l p have "fs w (Clean p) = None"
    by (auto simp: lookup_def split: if_splits option.splits)
  from grows_new [OF g this] n show ?thesis by auto
qed

lemma grows_lookup_fault:
  assumes g: "grows M w w1" and l: "lookup w p = Inl e" and e: "e \<noteq> ENOENT"
  shows "lookup w1 p = Inl e"
proof -
  from l e have p: "p \<noteq> []" and f: "fault w (Clean p) = Some e"
    by (auto simp: lookup_def split: if_splits option.splits)
  with grows_fields(1) [OF g] show ?thesis by (simp add: lookup_def)
qed

lemma mkdir_grows: "mkdir w p m = (r, w1) \<Longrightarrow> grows {m} w w1"
  by (auto simp: mkdir_def grows_def split: if_splits option.splits)

lemma mkdir_ok: "mkdir w p m = (None, w1) \<Longrightarrow> lookup w1 p = Inr (Dir m)"
  by (auto simp: mkdir_def lookup_def split: if_splits option.splits)

lemma mkdir_all_grows: "mkdir_all w p m = (r, w1) \<Longrightarrow> grows {m} w w1"
proof (induction w p m arbitrary: r w1 rule: mkdir_all.induct)
  case (1 w p m)
  show ?case
  proof (cases "lookup w p")
    case (Inr n)
    with "1.prems" show ?thesis
      by (auto simp: mkdir_all.simps [of w p m] grows_refl split: if_splits)
  next
    case (Inl e0)
    obtain r0 w0 where par:
      "(if mkdir_parent p \<noteq> [] then mkdir_all w (mkdir_parent p) m else (None, w)) = (r0, w0)"
      by (cases "if mkdir_parent p \<noteq> [] then mkdir_all w (mkdir_parent p) m else (None, w)")
    have g0: "grows {m} w w0"
    proof (cases "mkdir_parent p \<noteq> []")
      case True
      with par have "mkdir_all w (mkdir_parent p) m = (r0, w0)" by simp
      from "1.IH" [OF Inl True this] show ?thesis .
    next
      case False
      with par show ?thesis by (simp add: grows_refl)
    qed
    show ?thesis
    proof (cases r0)
      case (Some err)
      with "1.prems" Inl par g0 show ?thesis
        by (simp add: mkdir_all.simps [of w p m])
    next
      case None
      obtain r2 w2 where mk: "mkdir w0 p m = (r2, w2)" by (cases "mkdir w0 p m")
      from grows_trans [OF g0 mkdir_grows [OF mk]] have g2: "grows {m} w w2" by simp
      from "1.prems" Inl par None mk have "w1 = w2"
        by (auto simp: mkdir_all.simps [of w p m] split: option.splits sum.splits if_splits)
      with g2 show ?thesis by simp
    qed
  qed
qed

lemma mkdir_all_ok:
  assumes "mkdir_all w p m = (None, w1)"
  shows "\<exists>n. lookup w1 p = Inr n \<and> IsDir n"
proof (cases "lookup w p")
  case (Inr n)
  with assms show ?thesis
    by (auto simp: mkdir_all.simps [of w p m] split: if_splits)
next
  case (Inl e0)
  obtain r0 w0 where par:
    "(if mkdir_parent p \<noteq> [] then mkdir_all w (mkdir_parent p) m else (None, w)) = (r0, w0)"
    by (cases "if mkdir_parent p \<noteq> [] then mkdir_all w (mkdir_parent p) m else (None, w)")
  obtain r2 w2 where mk: "mkdir w0 p m = (r2, w2)" by (cases "mkdir w0 p m")
  from assms Inl par mk have r0: "r0 = None" and w12: "w1 = w2"
    by (auto simp: mkdir_all.simps [of w p m] split: option.splits sum.splits if_splits)
  show ?thesis
  proof (cases r2)
    case None
    with mk mkdir_ok have "lookup w2 p = Inr (Dir m)" by simp
    with w12 show ?thesis by simp
  next
    case (Some e)
    with assms Inl par mk r0 w12 show ?thesis
      by (auto simp: mkdir_all.simps [of w p m] split: option.splits sum.splits if_splits)
  qed
qed



lemma mkdir_all_fail_error:
  "mkdir_all w p m = (Some err, w1) \<Longrightarrow> \<exists>q e. err = PathError ''mkdir'' q e"
proof (induction w p m arbitrary: err w1 rule: mkdir_all.induct)
  case (1 w p m)
  show ?case
  proof (cases "lookup w p")
    case (Inr n)
    with "1.prems" show ?thesis
      by (auto simp: mkdir_all.simps [of w p m] split: if_splits)
  next
    case (Inl e0)
    obtain r0 w0 where par:
      "(if mkdir_parent p \<noteq> [] then mkdir_all w (mkdir_parent p) m else (None, w)) = (r0, w0)"
      by (cases "if mkdir_parent p \<noteq> [] then mkdir_all w (mkdir_parent p) m else (None, w)")
    show ?thesis
    proof (cases r0)
      case (Some e1)
      with "1.prems" Inl par have e: "err = e1" by (simp add: mkdir_all.simps [of w p m])
      from Some par have ne: "mkdir_parent p \<noteq> []" by (auto split: if_splits)
      with par Some have "mkdir_all w (mkdir_parent p) m = (Some e1, w0)" by simp
      from "1.IH" [OF Inl ne this] e show ?thesis by simp
    next
      case None
      with "1.prems" Inl par show ?thesis
        by (auto simp: mkdir_all.simps [of w p m] split: option.splits sum.splits if_splits prod.splits)
    qed
  qed
qed

section \<open>Lemmas on paths\<close>

lemma split_sep_ne [simp]: "split_sep s \<noteq> []"
  by (induction s) (auto split: list.splits)

lemma split_sep_snoc: "split_sep (s @ [Separator]) = split_sep s @ [[]]"
  by (induction s) (auto split: list.splits)

lemma clean_elems_snoc: "clean_elems r st (es @ [[]]) = clean_elems r st es"
  by (induction es arbitrary: st) (auto split: list.splits)

lemma Clean_snoc: "sd \<noteq> [] \<Longrightarrow> Clean (sd @ [Separator]) = Clean sd"
  by (simp add: Clean_def split_sep_snoc clean_elems_snoc)

lemma Join_empty: "filepath_Join [sd, []] = (if sd = [] then [] else Clean sd)"
  by (simp add: Clean_snoc)

lemma Clean_examples:
  "Clean ''/s'' = ''/s''"
  "Clean ''/s/smb.conf'' = ''/s/smb.conf''"
  "Clean ''/s/log'' = ''/s/log''"
  "Clean ''/s/pid'' = ''/s/pid''"
  by (simp_all add: Clean_def Separator_def)

section \<open>Clean is idempotent\<close>

lemma split_sep_free: "e \<in> set (split_sep s) \<Longrightarrow> Separator \<notin> set e"
  by (induction s arbitrary: e) (auto split: if_splits list.splits)

lemma split_sep_elem: "Separator \<notin> set e \<Longrightarrow> split_sep (e @ Separator # s) = e # split_sep s"
  by (induction e) auto

lemma split_sep_single: "Separator \<notin> set e \<Longrightarrow> split_sep e = [e]"
  by (induction e) auto

lemma split_join:
  "es \<noteq> [] \<Longrightarrow> \<forall>e\<in>set es. Separator \<notin> set e \<Longrightarrow> split_sep (join_sep es) = es"
  by (induction es rule: join_sep.induct) (simp_all add: split_sep_single split_sep_elem)

lemma cleaned_keep:
  "cleaned r ld es \<Longrightarrow> (ld \<longrightarrow> (\<forall>t\<in>set st. t = ''..'')) \<Longrightarrow>
   clean_elems r st es = rev st @ es"
proof (induction es arbitrary: st ld)
  case Nil
  then show ?case by simp
next
  case (Cons e es)
  show ?case
  proof (cases "e = ''..''")
    case True
    with Cons.prems have ld: "ld" "\<not> r" "cleaned r True es" "\<forall>t\<in>set st. t = ''..''"
      by auto
    have "clean_elems r (''..'' # st) es = rev (''..'' # st) @ es"
      by (rule Cons.IH [OF ld(3)]) (use ld(4) in simp)
    with True ld show ?thesis by (cases st) auto
  next
    case False
    with Cons.prems have e: "e \<noteq> []" "e \<noteq> ''.''" "cleaned r False es" by simp_all
    have "clean_elems r (e # st) es = rev (e # st) @ es"
      by (rule Cons.IH [OF e(3)]) simp
    with False e show ?thesis by simp
  qed
qed

lemma cleaned_prefix: "cleaned r ld (xs @ ys) \<Longrightarrow> cleaned r ld xs"
  by (induction xs arbitrary: ld) (auto split: if_splits)

lemma cleaned_snoc_real:
  "cleaned r ld xs \<Longrightarrow> e \<noteq> [] \<Longrightarrow> e \<noteq> ''.'' \<Longrightarrow> e \<noteq> ''..'' \<Longrightarrow> Separator \<notin> set e \<Longrightarrow>
   cleaned r ld (xs @ [e])"
  by (induction xs arbitrary: ld) (auto split: if_splits)

lemma cleaned_no_dotdot_after: "\<not> cleaned r False (xs @ [''..''])"
  by (induction xs) (auto split: if_splits)

lemma cleaned_snoc_dotdot:
  "cleaned r True (xs @ [''..'']) \<Longrightarrow> cleaned r True (xs @ [''..'', ''..''])"
proof (induction xs)
  case Nil
  then show ?case by (simp add: Separator_def)
next
  case (Cons x xs)
  show ?case
  proof (cases "x = ''..''")
    case True
    with Cons.prems have "cleaned r True (xs @ [''..''])" "\<not> r" by auto
    with Cons.IH True show ?thesis by (auto simp: Separator_def)
  next
    case False
    with Cons.prems have "cleaned r False (xs @ [''..''])" by simp
    with cleaned_no_dotdot_after show ?thesis by blast
  qed
qed

lemma clean_elems_cleaned:
  "\<forall>e\<in>set es. Separator \<notin> set e \<Longrightarrow> cleaned r True (rev st) \<Longrightarrow>
   cleaned r True (clean_elems r st es)"
proof (induction es arbitrary: st)
  case Nil
  then show ?case by simp
next
  case (Cons e es)
  from Cons.prems have free: "\<forall>e\<in>set es. Separator \<notin> set e" "Separator \<notin> set e" by simp_all
  note ih = Cons.IH [OF free(1)]
  show ?case
  proof (cases "e = [] \<or> e = ''.''")
    case True
    with ih [OF Cons.prems(2)] show ?thesis by auto
  next
    case False
    note real = this
    show ?thesis
    proof (cases "e = ''..''")
      case False
      with real free(2) Cons.prems(2) have "cleaned r True (rev (e # st))"
        by (simp add: cleaned_snoc_real)
      from ih [OF this] real False show ?thesis by simp
    next
      case True
      show ?thesis
      proof (cases st)
        case Nil
        show ?thesis
        proof (cases r)
          case True
          with \<open>e = ''..''\<close> Nil ih [of "[]"] show ?thesis by simp
        next
          case False
          then have "cleaned r True (rev [''..''])" by (simp add: Separator_def)
          from ih [OF this] \<open>e = ''..''\<close> Nil False show ?thesis by simp
        qed
      next
        case (Cons t ts)
        show ?thesis
        proof (cases "t = ''..''")
          case True
          with Cons Cons.prems(2) have "cleaned r True (rev ts @ [''..''])" by simp
          from cleaned_snoc_dotdot [OF this] have "cleaned r True (rev (''..'' # st))"
            using Cons True by simp
          from ih [OF this] \<open>e = ''..''\<close> Cons True show ?thesis by simp
        next
          case False
          from Cons Cons.prems(2) have "cleaned r True (rev ts @ [t])" by simp
          from cleaned_prefix [OF this] have "cleaned r True (rev ts)" .
          from ih [OF this] \<open>e = ''..''\<close> Cons False show ?thesis by simp
        qed
      qed
    qed
  qed
qed

lemma cleaned_free: "cleaned r ld es \<Longrightarrow> \<forall>e\<in>set es. Separator \<notin> set e"
  by (induction es arbitrary: ld) (auto split: if_splits)

lemma join_sep_hd:
  "es \<noteq> [] \<Longrightarrow> \<forall>e\<in>set es. e \<noteq> [] \<Longrightarrow> join_sep es \<noteq> [] \<and> hd (join_sep es) = hd (hd es)"
  by (induction es rule: join_sep.induct) auto

lemma cleaned_nonempty: "cleaned r ld es \<Longrightarrow> \<forall>e\<in>set es. e \<noteq> []"
proof (induction es arbitrary: ld)
  case Nil
  show ?case by simp
next
  case (Cons e es)
  from Cons.prems have "e \<noteq> []" and "cleaned r True es \<or> cleaned r False es"
    by (auto split: if_splits)
  with Cons.IH show ?case by auto
qed

lemma Clean_idem: "Clean (Clean p) = Clean p"
proof (cases "p = []")
  case True
  then show ?thesis by (simp add: Clean_def Separator_def)
next
  case False
  define r where "r = (hd p = Separator)"
  define es where "es = clean_elems r [] (split_sep p)"
  have c: "cleaned r True es"
    unfolding es_def by (rule clean_elems_cleaned) (auto dest: split_sep_free)
  note free = cleaned_free [OF c] and ne = cleaned_nonempty [OF c]
  have keep: "clean_elems r [] es = es"
    using cleaned_keep [OF c, of "[]"] by simp
  have cp: "Clean p = (if (if r then [Separator] else []) @ join_sep es = [] then ''.''
                       else (if r then [Separator] else []) @ join_sep es)"
    using False by (simp add: Clean_def Let_def r_def es_def)
  show ?thesis
  proof (cases "es = []")
    case True
    with cp show ?thesis by (cases r) (simp_all add: Clean_def Separator_def)
  next
    case nonempty: False
    from join_sep_hd [OF nonempty ne] have j: "join_sep es \<noteq> []"
      "hd (join_sep es) = hd (hd es)" by simp_all
    from nonempty free ne have h: "hd (hd es) \<noteq> Separator"
      by (cases es) (auto simp: neq_Nil_conv)
    show ?thesis
    proof (cases r)
      case True
      with cp have cpr: "Clean p = Separator # join_sep es" by simp
      have "split_sep (Separator # join_sep es) = [] # es"
        using split_join [OF nonempty free] by simp
      with keep True show ?thesis
        unfolding cpr by (simp add: Clean_def)
    next
      case False
      with cp j have cpr: "Clean p = join_sep es" by simp
      from split_join [OF nonempty free] keep False j h show ?thesis
        unfolding cpr by (simp add: Clean_def)
    qed
  qed
qed

lemma Clean_ne [simp]: "Clean p \<noteq> []"
  by (simp add: Clean_def Let_def)

lemma lookup_Clean: "p \<noteq> [] \<Longrightarrow> lookup w (Clean p) = lookup w p"
  by (simp add: lookup_def Clean_idem split: option.splits)

section \<open>The descriptor list\<close>

text \<open>
  C8. The descriptor list is a fixed ordered list of eleven (setting, subpath, mode)
  triples, all with mode 0755. The descriptors ``lock directory'' and ``private dir''
  (the fourth and fifth) have the same subpath \<open>private\<close>. The subpath of ``state
  directory'' is empty, so its absolute path is the state directory itself: the join
  gives the state directory in clean form, which names the same place in the file
  system, and is the same string when the state directory is given in clean form.
\<close>

theorem directorySettings_fixed:
  "length directorySettings = 11 \<and>
   map perm directorySettings = replicate 11 mode_0755 \<and>
   map (\<lambda>d. (Setting d, path d)) directorySettings =
     [(''state directory'', []),
      (''log file'', ''log''),
      (''pid directory'', ''pid''),
      (''lock directory'', ''private''),
      (''private dir'', ''private''),
      (''binddns dir'', ''bind-dns''),
      (''cache directory'', ''cache''),
      (''ncalrpc dir'', ''ncalrpc''),
      (''ntp signed socket directory'', ''ntp_signd''),
      (''usershare path'', ''usershares''),
      (''winbdd socket directory'', ''winbindd'')] \<and>
   path (directorySettings ! 3) = path (directorySettings ! 4) \<and>
   path (directorySettings ! 0) = [] \<and>
   filepath_Join [sd, path (directorySettings ! 0)] = (if sd = [] then [] else Clean sd) \<and>
   lookup w (filepath_Join [sd, path (directorySettings ! 0)]) = lookup w sd \<and>
   (Clean sd = sd \<longrightarrow> filepath_Join [sd, path (directorySettings ! 0)] = sd)"
proof -
  have ne: "Clean sd = sd \<Longrightarrow> sd \<noteq> []" by (auto simp: Clean_def)
  have len: "length directorySettings = 11"
    by (simp add: directorySettings_def)
  have "replicate 11 mode_0755 =
      replicate (Suc (Suc (Suc (Suc (Suc (Suc (Suc (Suc (Suc (Suc (Suc 0))))))))))) mode_0755"
    by (simp add: numeral_eq_Suc)
  then have perms: "map perm directorySettings = replicate 11 mode_0755"
    by (simp add: directorySettings_def mkSetting_def)
  have names: "map (\<lambda>d. (Setting d, path d)) directorySettings =
     [(''state directory'', []),
      (''log file'', ''log''),
      (''pid directory'', ''pid''),
      (''lock directory'', ''private''),
      (''private dir'', ''private''),
      (''binddns dir'', ''bind-dns''),
      (''cache directory'', ''cache''),
      (''ncalrpc dir'', ''ncalrpc''),
      (''ntp signed socket directory'', ''ntp_signd''),
      (''usershare path'', ''usershares''),
      (''winbdd socket directory'', ''winbindd'')]"
    by (simp add: directorySettings_def mkSetting_def)
  have shared: "path (directorySettings ! 3) = path (directorySettings ! 4)"
    by (simp add: directorySettings_def mkSetting_def)
  have root: "path (directorySettings ! 0) = []"
    by (simp add: directorySettings_def mkSetting_def)
  have j: "filepath_Join [sd, path (directorySettings ! 0)] = (if sd = [] then [] else Clean sd)"
    unfolding root by (rule Join_empty)
  from ne j have j2: "Clean sd = sd \<longrightarrow> filepath_Join [sd, path (directorySettings ! 0)] = sd"
    by (cases "sd = []") (simp_all del: filepath_Join.simps)
  from j have same: "lookup w (filepath_Join [sd, path (directorySettings ! 0)]) = lookup w sd"
    by (cases "sd = []") (simp_all add: lookup_Clean del: filepath_Join.simps)
  from len perms names shared root j j2 same show ?thesis by blast
qed

theorem directorySettings_fixed_witness:
  "Clean ''/s'' = ''/s'' \<and> filepath_Join [''/s'', path (directorySettings ! 0)] = ''/s''"
proof -
  have c: "Clean ''/s'' = ''/s''" by (simp add: Clean_def Separator_def)
  from directorySettings_fixed [where sd="''/s''"] c show ?thesis by blast
qed

section \<open>Lemmas on the template\<close>

lemma template_Parse_smbConfTemplate:
  "template_Parse smbConfTemplate =
     Inr [TText
            (NL # ''[global]'' @
             NL # ''        server role     = standalone server'' @
             NL # ''        interfaces      = 127.0.0.1'' @
             NL # ''        registry shares = no'' @
             NL # ''        config backend  = file'' @
             NL # TAB # TAB # ''log level       = 5'' @
             NL # ''        ''),
          TRange
            [TText (NL # ''        ''), TField ''Setting'', TText '' = '',
             TField ''AbsolutePath'', TText (NL # ''        '')],
          TText [NL]]"
  by (simp add: template_Parse_def smbConfTemplate_def NL_def TAB_def)

lemma collect_map_Inr:
  "(\<And>x. x \<in> set xs \<Longrightarrow> f x = Inr (g x)) \<Longrightarrow> collect (map f xs) = Inr (concat (map g xs))"
  by (induction xs) simp_all

lemma exec_range_settings:
  "exec_node (VSlice (map setting_value ds))
     (TRange [TText a, TField ''Setting'', TText b, TField ''AbsolutePath'', TText c]) =
   Inr (concat (map (\<lambda>d. a @ Setting d @ b @ AbsolutePath d @ c) ds))"
proof -
  have "collect (map (\<lambda>v. collect (map (exec_node v)
            [TText a, TField ''Setting'', TText b, TField ''AbsolutePath'', TText c]))
          (map setting_value ds)) =
        Inr (concat (map (\<lambda>d. a @ Setting d @ b @ AbsolutePath d @ c) ds))"
    unfolding map_map
    by (rule collect_map_Inr) (simp add: setting_value_def)
  then show ?thesis by simp
qed

lemma exec_smbConfTemplate:
  "template_Parse smbConfTemplate = Inr tmpl \<Longrightarrow>
   exec_nodes (VSlice (map setting_value ds)) tmpl =
     Inr ((NL # ''[global]'' @
           NL # ''        server role     = standalone server'' @
           NL # ''        interfaces      = 127.0.0.1'' @
           NL # ''        registry shares = no'' @
           NL # ''        config backend  = file'' @
           NL # TAB # TAB # ''log level       = 5'' @
           NL # ''        '') @
          concat (map (\<lambda>d. (NL # ''        '') @ Setting d @ '' = '' @ AbsolutePath d @
                             (NL # ''        '')) ds) @
          [NL])"
  unfolding template_Parse_smbConfTemplate exec_nodes_def
  by (auto simp add: exec_range_settings simp del: exec_node.simps(3))

section \<open>Lemmas on the bootstrap\<close>

lemma mkdir_trace: "mkdir w p m = (r, w1) \<Longrightarrow> trace w1 = trace w"
  by (auto simp: mkdir_def split: if_splits option.splits)

lemma mkdir_all_trace: "mkdir_all w p m = (r, w1) \<Longrightarrow> trace w1 = trace w"
proof (induction w p m arbitrary: r w1 rule: mkdir_all.induct)
  case (1 w p m)
  show ?case
  proof (cases "lookup w p")
    case (Inr n)
    with "1.prems" show ?thesis
      by (auto simp: mkdir_all.simps [of w p m] split: if_splits)
  next
    case (Inl e0)
    obtain r0 w0 where par:
      "(if mkdir_parent p \<noteq> [] then mkdir_all w (mkdir_parent p) m else (None, w)) = (r0, w0)"
      by (cases "if mkdir_parent p \<noteq> [] then mkdir_all w (mkdir_parent p) m else (None, w)")
    have t0: "trace w0 = trace w"
    proof (cases "mkdir_parent p \<noteq> []")
      case True
      with par have "mkdir_all w (mkdir_parent p) m = (r0, w0)" by simp
      from "1.IH" [OF Inl True this] show ?thesis .
    next
      case False
      with par show ?thesis by simp
    qed
    show ?thesis
    proof (cases r0)
      case (Some err)
      with "1.prems" Inl par t0 show ?thesis
        by (simp add: mkdir_all.simps [of w p m])
    next
      case None
      obtain r2 w2 where mk: "mkdir w0 p m = (r2, w2)" by (cases "mkdir w0 p m")
      from "1.prems" Inl par None mk have "w1 = w2"
        by (auto simp: mkdir_all.simps [of w p m] split: option.splits sum.splits if_splits)
      with mkdir_trace [OF mk] t0 show ?thesis by simp
    qed
  qed
qed

lemma os_MkdirAll_grows: "os_MkdirAll w p m = (r, w1) \<Longrightarrow> grows {m} w w1"
proof -
  assume a: "os_MkdirAll w p m = (r, w1)"
  obtain r0 w0 where mk: "mkdir_all w p m = (r0, w0)" by (cases "mkdir_all w p m")
  with a have "w1 = emit (EvMkdirAll p m) w0" by (simp add: os_MkdirAll_def)
  with grows_trans [OF mkdir_all_grows [OF mk] grows_emit [of "{m}" w0 "EvMkdirAll p m"]]
  show ?thesis by simp
qed

lemma os_MkdirAll_trace: "os_MkdirAll w p m = (r, w1) \<Longrightarrow> trace w1 = trace w @ [EvMkdirAll p m]"
proof -
  assume a: "os_MkdirAll w p m = (r, w1)"
  obtain r0 w0 where mk: "mkdir_all w p m = (r0, w0)" by (cases "mkdir_all w p m")
  from mkdir_all_trace [OF mk] a mk show ?thesis by (auto simp: os_MkdirAll_def)
qed

lemma os_MkdirAll_ok:
  "os_MkdirAll w p m = (None, w1) \<Longrightarrow> \<exists>n. lookup w1 p = Inr n \<and> IsDir n"
proof -
  assume a: "os_MkdirAll w p m = (None, w1)"
  obtain r0 w0 where mk: "mkdir_all w p m = (r0, w0)" by (cases "mkdir_all w p m")
  with a have "r0 = None" "w1 = emit (EvMkdirAll p m) w0" by (simp_all add: os_MkdirAll_def)
  with mkdir_all_ok mk show ?thesis by simp
qed

lemma make_directories_grows:
  "make_directories s w ds = (r, w1) \<Longrightarrow> grows (perm ` set ds) w w1"
proof (induction ds arbitrary: w r w1)
  case Nil
  then show ?case by (simp add: grows_refl)
next
  case (Cons d ds)
  let ?p = "filepath_Join [StateDir (opts s), path d]"
  obtain r0 w0 where mk: "os_MkdirAll w ?p (perm d) = (r0, w0)"
    by (cases "os_MkdirAll w ?p (perm d)")
  have g0: "grows (perm ` set (d # ds)) w w0"
    by (rule grows_mono [OF os_MkdirAll_grows [OF mk]]) simp
  show ?case
  proof (cases r0)
    case (Some err)
    with Cons.prems mk have "w1 = w0" by (simp del: filepath_Join.simps)
    with g0 show ?thesis by simp
  next
    case None
    obtain r2 w2 where rec: "make_directories s w0 ds = (r2, w2)"
      by (cases "make_directories s w0 ds")
    from Cons.prems mk None rec have w: "w1 = w2"
      by (cases r2) (simp_all del: filepath_Join.simps)
    have "grows (perm ` set (d # ds) \<union> perm ` set ds) w w2"
      by (rule grows_trans [OF g0 Cons.IH [OF rec]])
    with w show ?thesis by (simp add: Un_absorb2 subset_insertI)
  qed
qed

lemma make_directories_ok:
  "make_directories s w ds = (Inr ds1, w1) \<Longrightarrow>
   trace w1 = trace w @
     map (\<lambda>d. EvMkdirAll (filepath_Join [StateDir (opts s), path d]) (perm d)) ds \<and>
   ds1 = map (\<lambda>d. d\<lparr>AbsolutePath := filepath_Join [StateDir (opts s), path d]\<rparr>) ds \<and>
   (\<forall>d\<in>set ds. \<exists>n. lookup w1 (filepath_Join [StateDir (opts s), path d]) = Inr n \<and> IsDir n)"
proof (induction ds arbitrary: w ds1 w1)
  case Nil
  then show ?case by simp
next
  case (Cons d ds)
  let ?p = "filepath_Join [StateDir (opts s), path d]"
  obtain r0 w0 where mk: "os_MkdirAll w ?p (perm d) = (r0, w0)"
    by (cases "os_MkdirAll w ?p (perm d)")
  obtain r2 w2 where rec: "make_directories s w0 ds = (r2, w2)"
    by (cases "make_directories s w0 ds")
  from Cons.prems mk have r0: "r0 = None"
    by (cases r0) (simp_all del: filepath_Join.simps)
  from Cons.prems mk r0 rec obtain ds2 where r2: "r2 = Inr ds2"
    and ds1: "ds1 = d\<lparr>AbsolutePath := ?p\<rparr> # ds2" and w: "w1 = w2"
    by (cases r2) (simp_all del: filepath_Join.simps)
  from rec r2 have rec': "make_directories s w0 ds = (Inr ds2, w2)" by simp
  note ih = Cons.IH [OF rec']
  from mk r0 os_MkdirAll_ok obtain n where n: "lookup w0 ?p = Inr n" "IsDir n" by blast
  from grows_lookup_Inr [OF make_directories_grows [OF rec] n(1)] n(2)
  have here: "\<exists>n. lookup w2 ?p = Inr n \<and> IsDir n" by blast
  from ih os_MkdirAll_trace [OF mk] ds1 w here show ?case
    by (simp del: filepath_Join.simps)
qed

lemma make_directories_fail:
  "make_directories s w ds = (Inl e, w1) \<Longrightarrow>
   \<exists>k<length ds. \<exists>err.
     e = Errorf (''create '' @ filepath_Join [StateDir (opts s), path (ds ! k)]) err \<and>
     trace w1 = trace w @
       map (\<lambda>d. EvMkdirAll (filepath_Join [StateDir (opts s), path d]) (perm d))
         (take (Suc k) ds)"
proof (induction ds arbitrary: w w1)
  case Nil
  then show ?case by simp
next
  case (Cons d ds)
  let ?p = "filepath_Join [StateDir (opts s), path d]"
  let ?ev = "\<lambda>d. EvMkdirAll (filepath_Join [StateDir (opts s), path d]) (perm d)"
  obtain r0 w0 where mk: "os_MkdirAll w ?p (perm d) = (r0, w0)"
    by (cases "os_MkdirAll w ?p (perm d)")
  show ?case
  proof (cases r0)
    case (Some err)
    with Cons.prems mk have "e = Errorf (''create '' @ ?p) err" and "w1 = w0"
      by (simp_all del: filepath_Join.simps)
    with os_MkdirAll_trace [OF mk]
    have "e = Errorf (''create '' @ filepath_Join [StateDir (opts s), path ((d # ds) ! 0)]) err \<and>
          trace w1 = trace w @ map ?ev (take (Suc 0) (d # ds))"
      by (simp del: filepath_Join.simps)
    then show ?thesis by blast
  next
    case None
    obtain r2 w2 where rec: "make_directories s w0 ds = (r2, w2)"
      by (cases "make_directories s w0 ds")
    from Cons.prems mk None rec have r2: "r2 = Inl e" and w: "w1 = w2"
      by (cases r2; simp del: filepath_Join.simps)+
    from rec r2 have "make_directories s w0 ds = (Inl e, w2)" by simp
    from Cons.IH [OF this] obtain k err where k: "k < length ds"
      and e: "e = Errorf (''create '' @ filepath_Join [StateDir (opts s), path (ds ! k)]) err"
      and t: "trace w2 = trace w0 @ map ?ev (take (Suc k) ds)"
      by blast
    from k e t w os_MkdirAll_trace [OF mk]
    have "Suc k < length (d # ds) \<and>
          e = Errorf (''create '' @ filepath_Join [StateDir (opts s), path ((d # ds) ! Suc k)]) err \<and>
          trace w1 = trace w @ map ?ev (take (Suc (Suc k)) (d # ds))"
      by (simp del: filepath_Join.simps)
    then show ?thesis by blast
  qed
qed

declare filepath_Join.simps [simp del]

lemma os_Stat_eq:
  "os_Stat w p =
     (case lookup w p of Inl e \<Rightarrow> Inl (PathError ''stat'' p e) | Inr n \<Rightarrow> Inr n,
      emit (EvStat p) w)"
  by (simp add: os_Stat_def split: sum.splits)

lemma init_present:
  "lookup w (smbConfPath s) = Inr n \<Longrightarrow>
   initSMBConfIfNecessary s w = (None, emit (EvStat (smbConfPath s)) w)"
  by (simp add: initSMBConfIfNecessary_def os_Stat_eq)

lemma init_stat_error:
  "lookup w (smbConfPath s) = Inl e \<Longrightarrow> e \<noteq> ENOENT \<Longrightarrow>
   initSMBConfIfNecessary s w =
     (Some (Errorf (''check '' @ smbConfPath s @ '' exists'')
              (PathError ''stat'' (smbConfPath s) e)),
      emit (EvStat (smbConfPath s)) w)"
  by (simp add: initSMBConfIfNecessary_def os_Stat_eq)

lemma open_absent:
  "lookup w p = Inl ENOENT \<Longrightarrow>
   os_OpenFile w p [O_CREATE, O_WRONLY] m =
     (if p \<noteq> [] \<and> fault w (Clean p) = None
      then (Inr \<lparr>fname = p\<rparr>, (emit (EvOpenFile p [O_CREATE, O_WRONLY] m) w)
              \<lparr>fs := (fs w)(Clean p \<mapsto> File m [])\<rparr>)
      else (Inl (PathError ''open'' p ENOENT), emit (EvOpenFile p [O_CREATE, O_WRONLY] m) w))"
  by (simp add: os_OpenFile_def Let_def)

lemma init_absent_unfold:
  assumes "lookup w (smbConfPath s) = Inl ENOENT"
  shows "initSMBConfIfNecessary s w =
     (case os_OpenFile (emit (EvStat (smbConfPath s)) w) (smbConfPath s)
             [O_CREATE, O_WRONLY] mode_0644 of
        (Inl err, w2) \<Rightarrow> (Some (Errorf (''create '' @ smbConfPath s) err), w2)
      | (Inr file, w2) \<Rightarrow>
          (case make_directories s w2 directorySettings of
             (Inl err, w3) \<Rightarrow> (Some err, file_Close w3 file)
           | (Inr ds, w3) \<Rightarrow>
               (case template_Execute w3 (projr (template_Parse smbConfTemplate)) file ds of
                  (Some err, w4) \<Rightarrow>
                    (Some (Errorf ''execute smb.conf template'' err), file_Close w4 file)
                | (None, w4) \<Rightarrow> (None, file_Close w4 file))))"
  using assms
  by (simp add: initSMBConfIfNecessary_def os_Stat_eq template_Parse_smbConfTemplate
        cong: prod.case_cong sum.case_cong)

text \<open>The text that executing the template on the descriptors gives.\<close>

lemma execute_settings:
  assumes f: "lookup w (fname f) = Inr (File m [])"
  shows "template_Execute w (projr (template_Parse smbConfTemplate)) f ds =
     (case write_fault w (Clean (fname f)) of
        Some e \<Rightarrow> (Some (PathError ''write'' (fname f) e), emit (EvExecute (fname f)) w)
      | None \<Rightarrow>
          (None, (emit (EvExecute (fname f)) w)
             \<lparr>fs := (fs w)(Clean (fname f) \<mapsto> File m
                ((NL # ''[global]'' @
                  NL # ''        server role     = standalone server'' @
                  NL # ''        interfaces      = 127.0.0.1'' @
                  NL # ''        registry shares = no'' @
                  NL # ''        config backend  = file'' @
                  NL # TAB # TAB # ''log level       = 5'' @
                  NL # ''        '') @
                 concat (map (\<lambda>d. (NL # ''        '') @ Setting d @ '' = '' @
                                    AbsolutePath d @ (NL # ''        '')) ds) @
                 [NL]))\<rparr>))"
proof -
  have p: "template_Parse smbConfTemplate = Inr (projr (template_Parse smbConfTemplate))"
    by (simp add: template_Parse_smbConfTemplate)
  from f have n: "fs w (Clean (fname f)) = Some (File m [])"
    by (auto simp: lookup_def split: if_splits option.splits)
  show ?thesis
    unfolding template_Execute_def exec_smbConfTemplate [OF p]
    using n by (simp add: file_Write_def split: option.splits)
qed

lemma lookup_file_written:
  assumes w1: "fault w1 = fault w" "fs w1 = (fs w)(Clean p \<mapsto> File m c)"
    and had: "lookup w p = Inr (File m0 c0)"
  shows "lookup w1 p = Inr (File m c)"
    and "lookup w q = Inr n \<Longrightarrow> IsDir n \<Longrightarrow> lookup w1 q = Inr n"
proof -
  from had have p: "p \<noteq> []" "fault w (Clean p) = None" "fs w (Clean p) = Some (File m0 c0)"
    by (auto simp: lookup_def split: if_splits option.splits)
  with w1 show "lookup w1 p = Inr (File m c)" by (simp add: lookup_def)
  assume q: "lookup w q = Inr n" and d: "IsDir n"
  from q have q': "q \<noteq> []" "fault w (Clean q) = None" "fs w (Clean q) = Some n"
    by (auto simp: lookup_def split: if_splits option.splits)
  with d p have "Clean q \<noteq> Clean p" by auto
  with q' w1 show "lookup w1 q = Inr n" by (simp add: lookup_def)
qed

text \<open>
  All that \<open>initSMBConfIfNecessary\<close> can do when the configuration file is not there:
  the file cannot be created; or it is created and a directory fails; or all
  directories are made and the write fails; or everything succeeds.
\<close>

lemma init_absent:
  assumes absent: "lookup w (smbConfPath s) = Inl ENOENT"
    and run: "initSMBConfIfNecessary s w = (r, w1)"
  shows
    "(r = Some (Errorf (''create '' @ smbConfPath s)
                 (PathError ''open'' (smbConfPath s) ENOENT)) \<and>
      w1 = emit (EvOpenFile (smbConfPath s) [O_CREATE, O_WRONLY] mode_0644)
             (emit (EvStat (smbConfPath s)) w)) \<or>
     (\<exists>k<length directorySettings. \<exists>err.
        r = Some (Errorf (''create '' @
                    filepath_Join [StateDir (opts s), path (directorySettings ! k)]) err) \<and>
        trace w1 = trace w @
          [EvStat (smbConfPath s),
           EvOpenFile (smbConfPath s) [O_CREATE, O_WRONLY] mode_0644] @
          map (\<lambda>d. EvMkdirAll (filepath_Join [StateDir (opts s), path d]) (perm d))
            (take (Suc k) directorySettings) @
          [EvClose (smbConfPath s)] \<and>
        lookup w1 (smbConfPath s) = Inr (File mode_0644 [])) \<or>
     ((\<forall>d\<in>set directorySettings.
         \<exists>n. lookup w1 (filepath_Join [StateDir (opts s), path d]) = Inr n \<and> IsDir n \<and>
             (lookup w (filepath_Join [StateDir (opts s), path d]) = Inl ENOENT \<longrightarrow>
              n = Dir (perm d))) \<and>
      trace w1 = trace w @
        [EvStat (smbConfPath s),
         EvOpenFile (smbConfPath s) [O_CREATE, O_WRONLY] mode_0644] @
        map (\<lambda>d. EvMkdirAll (filepath_Join [StateDir (opts s), path d]) (perm d))
          directorySettings @
        [EvExecute (smbConfPath s), EvClose (smbConfPath s)] \<and>
      ((\<exists>e. r = Some (Errorf ''execute smb.conf template''
                       (PathError ''write'' (smbConfPath s) e)) \<and>
            lookup w1 (smbConfPath s) = Inr (File mode_0644 [])) \<or>
       (r = None \<and>
        lookup w1 (smbConfPath s) = Inr (File mode_0644
          ((NL # ''[global]'' @
            NL # ''        server role     = standalone server'' @
            NL # ''        interfaces      = 127.0.0.1'' @
            NL # ''        registry shares = no'' @
            NL # ''        config backend  = file'' @
            NL # TAB # TAB # ''log level       = 5'' @
            NL # ''        '') @
           concat (map (\<lambda>d. (NL # ''        '') @ Setting d @ '' = '' @
                              filepath_Join [StateDir (opts s), path d] @
                              (NL # ''        '')) directorySettings) @
           [NL])))))"
proof -
  let ?p = "smbConfPath s"
  let ?ev = "\<lambda>d. EvMkdirAll (filepath_Join [StateDir (opts s), path d]) (perm d)"
  let ?w0 = "emit (EvStat ?p) w"
  have absent0: "lookup ?w0 ?p = Inl ENOENT" using absent by simp
  note unf = init_absent_unfold [OF absent] open_absent [OF absent0]
  show ?thesis
  proof (cases "?p \<noteq> [] \<and> fault w (Clean ?p) = None")
    case False
    with run unf show ?thesis by auto
  next
    case True
    define w2 where "w2 = (emit (EvOpenFile ?p [O_CREATE, O_WRONLY] mode_0644) ?w0)
              \<lparr>fs := (fs ?w0)(Clean ?p \<mapsto> File mode_0644 [])\<rparr>"
    have l2: "lookup w2 ?p = Inr (File mode_0644 [])"
      using True by (simp add: w2_def lookup_def)
    have t2: "trace w2 = trace w @ [EvStat ?p, EvOpenFile ?p [O_CREATE, O_WRONLY] mode_0644]"
      by (simp add: w2_def)
    obtain r3 w3 where md: "make_directories s w2 directorySettings = (r3, w3)"
      by (cases "make_directories s w2 directorySettings")
    note g3 = make_directories_grows [OF md]
    have l3: "lookup w3 ?p = Inr (File mode_0644 [])"
      by (rule grows_lookup_Inr [OF g3 l2])
    show ?thesis
    proof (cases r3)
      case (Inl e)
      from run unf True md Inl have r: "r = Some e" and w1: "w1 = file_Close w3 \<lparr>fname = ?p\<rparr>"
        by (simp_all add: w2_def)
      from md Inl make_directories_fail obtain k err where k: "k < length directorySettings"
        and e: "e = Errorf (''create '' @
                     filepath_Join [StateDir (opts s), path (directorySettings ! k)]) err"
        and t3: "trace w3 = trace w2 @ map ?ev (take (Suc k) directorySettings)"
        by blast
      from r e w1 t3 t2 l3 k
      have "k < length directorySettings \<and>
         r = Some (Errorf (''create '' @
                    filepath_Join [StateDir (opts s), path (directorySettings ! k)]) err) \<and>
         trace w1 = trace w @
           [EvStat ?p, EvOpenFile ?p [O_CREATE, O_WRONLY] mode_0644] @
           map ?ev (take (Suc k) directorySettings) @ [EvClose ?p] \<and>
         lookup w1 ?p = Inr (File mode_0644 [])"
        by (simp add: file_Close_def)
      then show ?thesis by blast
    next
      case (Inr ds1)
      from md Inr make_directories_ok [of s w2 directorySettings ds1 w3]
      have t3: "trace w3 = trace w2 @ map ?ev directorySettings"
        and ds1: "ds1 = map (\<lambda>d. d\<lparr>AbsolutePath :=
                      filepath_Join [StateDir (opts s), path d]\<rparr>) directorySettings"
        and dirs: "\<forall>d\<in>set directorySettings.
             \<exists>n. lookup w3 (filepath_Join [StateDir (opts s), path d]) = Inr n \<and> IsDir n"
        by simp_all
      have dirs3: "\<forall>d\<in>set directorySettings.
             \<exists>n. lookup w3 (filepath_Join [StateDir (opts s), path d]) = Inr n \<and> IsDir n \<and>
                 (lookup w (filepath_Join [StateDir (opts s), path d]) = Inl ENOENT \<longrightarrow>
                  n = Dir (perm d))"
      proof
        fix d assume d: "d \<in> set directorySettings"
        let ?q = "filepath_Join [StateDir (opts s), path d]"
        from dirs d obtain n where n: "lookup w3 ?q = Inr n" "IsDir n" by blast
        have "n = Dir (perm d)" if miss: "lookup w ?q = Inl ENOENT"
        proof (cases "Clean ?q = Clean ?p")
          case same: True
          from n(1) have "?q \<noteq> []" by (auto simp: lookup_def)
          with same l2 have "lookup w2 ?q = Inr (File mode_0644 [])"
            by (auto simp: lookup_def split: if_splits option.splits)
          from grows_lookup_Inr [OF g3 this] n show ?thesis by simp
        next
          case False
          with miss have "lookup w2 ?q = Inl ENOENT"
            by (auto simp: w2_def lookup_def split: if_splits option.splits)
          from grows_lookup_new [OF g3 this n(1)] obtain m
            where m: "m \<in> perm ` set directorySettings" "n = Dir m" by blast
          from m(1) d have "m = perm d"
            by (auto simp: directorySettings_def mkSetting_def)
          with m(2) show ?thesis by simp
        qed
        with n show "\<exists>n. lookup w3 ?q = Inr n \<and> IsDir n \<and>
                 (lookup w ?q = Inl ENOENT \<longrightarrow> n = Dir (perm d))"
          by blast
      qed
      let ?f = "\<lparr>fname = ?p\<rparr>"
      have lf: "lookup w3 (fname ?f) = Inr (File mode_0644 [])" using l3 by simp
      note ex = execute_settings [OF lf, of ds1]
      obtain r4 w4 where x: "template_Execute w3 (projr (template_Parse smbConfTemplate)) ?f ds1
          = (r4, w4)"
        by (cases "template_Execute w3 (projr (template_Parse smbConfTemplate)) ?f ds1")
      from run unf True md Inr x have w1: "w1 = file_Close w4 ?f"
        and r: "r = (case r4 of None \<Rightarrow> None
                      | Some err \<Rightarrow> Some (Errorf ''execute smb.conf template'' err))"
        by (auto simp: w2_def split: option.splits)
      show ?thesis
      proof (cases "write_fault w3 (Clean ?p)")
        case (Some e)
        with ex x have r4: "r4 = Some (PathError ''write'' ?p e)"
          and w4: "w4 = emit (EvExecute ?p) w3" by simp_all
        from w1 w4 t3 t2 have t: "trace w1 = trace w @
            [EvStat ?p, EvOpenFile ?p [O_CREATE, O_WRONLY] mode_0644] @
            map ?ev directorySettings @ [EvExecute ?p, EvClose ?p]"
          by (simp add: file_Close_def)
        from w1 w4 dirs3 have d: "\<forall>d\<in>set directorySettings.
             \<exists>n. lookup w1 (filepath_Join [StateDir (opts s), path d]) = Inr n \<and> IsDir n \<and>
                 (lookup w (filepath_Join [StateDir (opts s), path d]) = Inl ENOENT \<longrightarrow>
                  n = Dir (perm d))"
          by (simp add: file_Close_def)
        from w1 w4 l3 have l: "lookup w1 ?p = Inr (File mode_0644 [])"
          by (simp add: file_Close_def)
        from r r4 have "r = Some (Errorf ''execute smb.conf template''
             (PathError ''write'' ?p e))" by simp
        with t d l show ?thesis by blast
      next
        case None
        let ?text = "(NL # ''[global]'' @
            NL # ''        server role     = standalone server'' @
            NL # ''        interfaces      = 127.0.0.1'' @
            NL # ''        registry shares = no'' @
            NL # ''        config backend  = file'' @
            NL # TAB # TAB # ''log level       = 5'' @
            NL # ''        '') @
           concat (map (\<lambda>d. (NL # ''        '') @ Setting d @ '' = '' @
                              AbsolutePath d @ (NL # ''        '')) ds1) @
           [NL]"
        from None ex x have r4: "r4 = None"
          and w4: "w4 = (emit (EvExecute ?p) w3)\<lparr>fs := (fs w3)(Clean ?p \<mapsto>
                     File mode_0644 ?text)\<rparr>"
          by simp_all
        from w4 have f4: "fault w4 = fault w3"
          and fs4: "fs w4 = (fs w3)(Clean ?p \<mapsto> File mode_0644 ?text)"
          by simp_all
        note lw = lookup_file_written [OF f4 fs4 l3]
        from w1 w4 t3 t2 have t: "trace w1 = trace w @
            [EvStat ?p, EvOpenFile ?p [O_CREATE, O_WRONLY] mode_0644] @
            map ?ev directorySettings @ [EvExecute ?p, EvClose ?p]"
          by (simp add: file_Close_def)
        have d: "\<forall>d\<in>set directorySettings.
             \<exists>n. lookup w1 (filepath_Join [StateDir (opts s), path d]) = Inr n \<and> IsDir n \<and>
                 (lookup w (filepath_Join [StateDir (opts s), path d]) = Inl ENOENT \<longrightarrow>
                  n = Dir (perm d))"
        proof
          fix d assume "d \<in> set directorySettings"
          with dirs3 obtain n
            where n: "lookup w3 (filepath_Join [StateDir (opts s), path d]) = Inr n" "IsDir n"
              "lookup w (filepath_Join [StateDir (opts s), path d]) = Inl ENOENT \<longrightarrow>
               n = Dir (perm d)"
            by blast
          from lw(2) [OF n(1) n(2)] w1
          have "lookup w1 (filepath_Join [StateDir (opts s), path d]) = Inr n"
            by (simp add: file_Close_def)
          with n show "\<exists>n. lookup w1 (filepath_Join [StateDir (opts s), path d]) = Inr n \<and>
              IsDir n \<and>
              (lookup w (filepath_Join [StateDir (opts s), path d]) = Inl ENOENT \<longrightarrow>
               n = Dir (perm d))"
            by blast
        qed
        have same: "concat (map (\<lambda>d. (NL # ''        '') @ Setting d @ '' = '' @
                              AbsolutePath d @ (NL # ''        '')) ds1) =
              concat (map (\<lambda>d. (NL # ''        '') @ Setting d @ '' = '' @
                              filepath_Join [StateDir (opts s), path d] @
                              (NL # ''        '')) directorySettings)"
          unfolding ds1 map_map by (simp add: comp_def)
        from w1 lw(1) have l: "lookup w1 ?p = Inr (File mode_0644 ?text)"
          by (simp add: file_Close_def)
        from r r4 have "r = None" by simp
        with t d l same show ?thesis by simp
      qed
    qed
  qed
qed

section \<open>What a call keeps\<close>

lemma keeps_refl: "keeps w w"
  by (simp add: keeps_def)









section \<open>Evaluating the bootstrap on the examples\<close>

lemmas eval_simps =
  initSMBConfIfNecessary_def os_Stat_eq example_server_def example_opts_def empty_world_def
  state_dir_world_def stat_denied_world_def state_denied_world_def
  pid_file_world_def conf_present_world_def deep_opts_def
  lookup_def os_OpenFile_def emit_def template_Parse_smbConfTemplate directorySettings_def
  mkSetting_def os_MkdirAll_def filepath_Join.simps Clean_def Separator_def mkdir_all.simps
  mkdir_def mkdir_parent_def file_Close_def template_Execute_def exec_nodes_def
  setting_value_def file_Write_def

lemma stat_absent:
  "fst (os_Stat w p) = Inl err \<Longrightarrow> os_IsNotExist err \<Longrightarrow> lookup w p = Inl ENOENT"
  by (auto simp: os_Stat_eq split: sum.splits)

lemma stat_present: "fst (os_Stat w p) = Inr n \<Longrightarrow> lookup w p = Inr n"
  by (auto simp: os_Stat_eq split: sum.splits)

lemma init_state_dir_world:
  "fst (initSMBConfIfNecessary example_server state_dir_world) = None"
  by (simp add: eval_simps)

lemma stat_state_dir_world:
  "fst (os_Stat state_dir_world (smbConfPath example_server)) =
     Inl (PathError ''stat'' ''/s/smb.conf'' ENOENT)"
  by (simp add: eval_simps)

lemma stat_pid_file_world:
  "fst (os_Stat pid_file_world (smbConfPath example_server)) =
     Inl (PathError ''stat'' ''/s/smb.conf'' ENOENT)"
  by (simp add: eval_simps)

section \<open>The skip path and the stat failure\<close>

text \<open>
  C6. When checking the configuration path fails for a reason other than non-existence,
  \<open>initSMBConfIfNecessary\<close> returns an error that wraps the stat failure, and the call
  to \<open>os.Stat\<close> is all that happened: nothing is created, the file system is as before.
\<close>

theorem initSMBConfIfNecessary_stat_failure:
  assumes "fst (os_Stat w (smbConfPath s)) = Inl err" and "\<not> os_IsNotExist err"
  shows "initSMBConfIfNecessary s w =
           (Some (Errorf (''check '' @ smbConfPath s @ '' exists'') err),
            emit (EvStat (smbConfPath s)) w) \<and>
         fs (snd (initSMBConfIfNecessary s w)) = fs w"
  using assms
  by (auto simp: initSMBConfIfNecessary_def os_Stat_eq split: sum.splits)

theorem initSMBConfIfNecessary_stat_failure_witness:
  "fst (os_Stat stat_denied_world (smbConfPath example_server)) =
     Inl (PathError ''stat'' ''/s/smb.conf'' EACCES) \<and>
   \<not> os_IsNotExist (PathError ''stat'' ''/s/smb.conf'' EACCES) \<and>
   initSMBConfIfNecessary example_server stat_denied_world =
     (Some (Errorf ''check /s/smb.conf exists'' (PathError ''stat'' ''/s/smb.conf'' EACCES)),
      emit (EvStat ''/s/smb.conf'') stat_denied_world) \<and>
   fs (snd (initSMBConfIfNecessary example_server stat_denied_world)) = fs stat_denied_world"
proof -
  have a: "fst (os_Stat stat_denied_world (smbConfPath example_server)) =
     Inl (PathError ''stat'' ''/s/smb.conf'' EACCES)"
    by (simp add: eval_simps)
  have b: "\<not> os_IsNotExist (PathError ''stat'' ''/s/smb.conf'' EACCES)" by simp
  have c: "smbConfPath example_server = ''/s/smb.conf''" by (simp add: example_server_def)
  from initSMBConfIfNecessary_stat_failure [OF a b] a b show ?thesis
    unfolding c by simp
qed

text \<open>
  C4. When a file exists at the configuration path, whatever it holds,
  \<open>initSMBConfIfNecessary\<close> returns success after the call to \<open>os.Stat\<close> and nothing
  else: the file is neither read nor changed and no directory is made or looked at.
  Hence a second call after a successful one returns success and leaves the file
  system, and so the configuration file, as the first call left it.
\<close>

theorem initSMBConfIfNecessary_skip:
  "(fst (os_Stat w (smbConfPath s)) = Inr n \<longrightarrow>
      initSMBConfIfNecessary s w = (None, emit (EvStat (smbConfPath s)) w) \<and>
      fs (snd (initSMBConfIfNecessary s w)) = fs w) \<and>
   (initSMBConfIfNecessary s w = (None, w1) \<longrightarrow>
      initSMBConfIfNecessary s w1 = (None, emit (EvStat (smbConfPath s)) w1) \<and>
      fs (snd (initSMBConfIfNecessary s w1)) = fs w1)"
proof -
  have skip: "initSMBConfIfNecessary s v = (None, emit (EvStat (smbConfPath s)) v) \<and>
      fs (snd (initSMBConfIfNecessary s v)) = fs v"
    if "lookup v (smbConfPath s) = Inr k" for v k
    using init_present [OF that] by simp
  have second: "\<exists>k. lookup w1 (smbConfPath s) = Inr k"
    if run: "initSMBConfIfNecessary s w = (None, w1)"
  proof (cases "lookup w (smbConfPath s)")
    case (Inr k)
    from init_present [OF Inr] run have "w1 = emit (EvStat (smbConfPath s)) w" by simp
    with Inr show ?thesis by simp
  next
    case (Inl e)
    show ?thesis
    proof (cases "e = ENOENT")
      case True
      with Inl have "lookup w (smbConfPath s) = Inl ENOENT" by simp
      from init_absent [OF this run] show ?thesis by auto
    next
      case False
      from init_stat_error [OF Inl False] run show ?thesis by simp
    qed
  qed
  from skip second stat_present show ?thesis by blast
qed

theorem initSMBConfIfNecessary_skip_witness:
  "fst (os_Stat conf_present_world (smbConfPath example_server)) = Inr (File mode_0644 []) \<and>
   initSMBConfIfNecessary example_server conf_present_world =
     (None, emit (EvStat (smbConfPath example_server)) conf_present_world) \<and>
   fst (initSMBConfIfNecessary example_server state_dir_world) = None \<and>
   initSMBConfIfNecessary example_server
       (snd (initSMBConfIfNecessary example_server state_dir_world)) =
     (None, emit (EvStat (smbConfPath example_server))
        (snd (initSMBConfIfNecessary example_server state_dir_world)))"
proof -
  have a: "fst (os_Stat conf_present_world (smbConfPath example_server)) =
      Inr (File mode_0644 [])"
    by (simp add: eval_simps)
  have b: "initSMBConfIfNecessary example_server state_dir_world =
      (None, snd (initSMBConfIfNecessary example_server state_dir_world))"
    using init_state_dir_world by (simp add: prod_eq_iff)
  from initSMBConfIfNecessary_skip
         [of conf_present_world example_server "File mode_0644 []" conf_present_world]
       initSMBConfIfNecessary_skip
         [of state_dir_world example_server "File mode_0644 []"
             "snd (initSMBConfIfNecessary example_server state_dir_world)"]
       a b init_state_dir_world
  show ?thesis by blast
qed

section \<open>The generated configuration file\<close>

text \<open>
  C5. When the configuration file was not there and \<open>initSMBConfIfNecessary\<close> succeeds,
  the file holds the \<open>[global]\<close> header with the five fixed keys (server role,
  interfaces, registry shares, config backend, log level) and after them, for every
  descriptor in the order of the list, exactly one line \<open><setting> = <absolute path>\<close>
  (indented, and followed by a line of blanks), where the absolute path is the state
  directory joined with the descriptor's subpath.
\<close>

theorem smb_conf_content:
  assumes "fst (os_Stat w (smbConfPath s)) = Inl err" and "os_IsNotExist err"
    and "initSMBConfIfNecessary s w = (None, w1)"
  shows "lookup w1 (smbConfPath s) = Inr (File mode_0644
          ((NL # ''[global]'' @
            NL # ''        server role     = standalone server'' @
            NL # ''        interfaces      = 127.0.0.1'' @
            NL # ''        registry shares = no'' @
            NL # ''        config backend  = file'' @
            NL # TAB # TAB # ''log level       = 5'' @
            NL # ''        '') @
           concat (map (\<lambda>d. (NL # ''        '') @ Setting d @ '' = '' @
                              filepath_Join [StateDir (opts s), path d] @
                              (NL # ''        '')) directorySettings) @
           [NL]))"
  using init_absent [OF stat_absent [OF assms(1) assms(2)] assms(3)] by simp

theorem smb_conf_content_witness:
  "fst (os_Stat state_dir_world (smbConfPath example_server)) =
     Inl (PathError ''stat'' ''/s/smb.conf'' ENOENT) \<and>
   os_IsNotExist (PathError ''stat'' ''/s/smb.conf'' ENOENT) \<and>
   fst (initSMBConfIfNecessary example_server state_dir_world) = None \<and>
   lookup (snd (initSMBConfIfNecessary example_server state_dir_world)) ''/s/smb.conf'' =
     Inr (File mode_0644
          (NL # ''[global]'' @
           NL # ''        server role     = standalone server'' @
           NL # ''        interfaces      = 127.0.0.1'' @
           NL # ''        registry shares = no'' @
           NL # ''        config backend  = file'' @
           NL # TAB # TAB # ''log level       = 5'' @
           NL # ''        '' @
           NL # ''        state directory = /s'' @ NL # ''        '' @
           NL # ''        log file = /s/log'' @ NL # ''        '' @
           NL # ''        pid directory = /s/pid'' @ NL # ''        '' @
           NL # ''        lock directory = /s/private'' @ NL # ''        '' @
           NL # ''        private dir = /s/private'' @ NL # ''        '' @
           NL # ''        binddns dir = /s/bind-dns'' @ NL # ''        '' @
           NL # ''        cache directory = /s/cache'' @ NL # ''        '' @
           NL # ''        ncalrpc dir = /s/ncalrpc'' @ NL # ''        '' @
           NL # ''        ntp signed socket directory = /s/ntp_signd'' @ NL # ''        '' @
           NL # ''        usershare path = /s/usershares'' @ NL # ''        '' @
           NL # ''        winbdd socket directory = /s/winbindd'' @ NL # ''        '' @
           [NL]))"
proof -
  have b: "os_IsNotExist (PathError ''stat'' ''/s/smb.conf'' ENOENT)" by simp
  have c: "initSMBConfIfNecessary example_server state_dir_world =
      (None, snd (initSMBConfIfNecessary example_server state_dir_world))"
    using init_state_dir_world by (simp add: prod_eq_iff)
  have d: "smbConfPath example_server = ''/s/smb.conf''" by (simp add: example_server_def)
  have e: "StateDir (opts example_server) = ''/s''"
    by (simp add: example_server_def example_opts_def)
  from smb_conf_content [OF stat_state_dir_world b c]
  have "lookup (snd (initSMBConfIfNecessary example_server state_dir_world)) ''/s/smb.conf'' =
     Inr (File mode_0644
          ((NL # ''[global]'' @
            NL # ''        server role     = standalone server'' @
            NL # ''        interfaces      = 127.0.0.1'' @
            NL # ''        registry shares = no'' @
            NL # ''        config backend  = file'' @
            NL # TAB # TAB # ''log level       = 5'' @
            NL # ''        '') @
           concat (map (\<lambda>d. (NL # ''        '') @ Setting d @ '' = '' @
                              filepath_Join [''/s'', path d] @
                              (NL # ''        '')) directorySettings) @
           [NL]))"
    unfolding d e .
  then show ?thesis
    using stat_state_dir_world b init_state_dir_world
    by (simp add: directorySettings_def mkSetting_def filepath_Join.simps Clean_def
        Separator_def)
qed

section \<open>The order of the bootstrap\<close>

text \<open>
  C3, as the claim states it, fails: the configuration file is created before the
  directories, and it is still there when a directory cannot be made. On a machine
  where \<open>/s/pid\<close> is a file, \<open>initSMBConfIfNecessary\<close> returns the error of that
  directory, after it has created the configuration file and made two directories; the
  (empty) configuration file is in the file system when it returns.
\<close>

theorem bootstrap_order_counterexample:
  "lookup pid_file_world (smbConfPath example_server) = Inl ENOENT \<and>
   fst (initSMBConfIfNecessary example_server pid_file_world) =
     Some (Errorf ''create /s/pid'' (PathError ''mkdir'' ''/s/pid'' ENOTDIR)) \<and>
   trace (snd (initSMBConfIfNecessary example_server pid_file_world)) =
     [EvStat ''/s/smb.conf'',
      EvOpenFile ''/s/smb.conf'' [O_CREATE, O_WRONLY] mode_0644,
      EvMkdirAll ''/s'' mode_0755,
      EvMkdirAll ''/s/log'' mode_0755,
      EvMkdirAll ''/s/pid'' mode_0755,
      EvClose ''/s/smb.conf''] \<and>
   lookup (snd (initSMBConfIfNecessary example_server pid_file_world))
     (smbConfPath example_server) = Inr (File mode_0644 [])"
  by (simp add: eval_simps)

text \<open>
  C3, amended. When the configuration file is not there, \<open>initSMBConfIfNecessary\<close>
  first creates the file (mode 0644) and then, in the order of the list, makes the
  directory of every descriptor, at the state directory joined with the subpath and
  with the descriptor's mode. The calls stop at the first directory that fails, and
  the error names that directory's path. The template is executed only when every
  directory has been made; then all of them are directories, and those that were
  missing have their descriptor's mode.
\<close>

theorem initSMBConfIfNecessary_order:
  assumes "fst (os_Stat w (smbConfPath s)) = Inl err" and "os_IsNotExist err"
    and "initSMBConfIfNecessary s w = (r, w1)"
  shows "\<exists>k tail. k \<le> length directorySettings \<and>
     trace w1 = trace w @
       [EvStat (smbConfPath s),
        EvOpenFile (smbConfPath s) [O_CREATE, O_WRONLY] mode_0644] @
       map (\<lambda>d. EvMkdirAll (filepath_Join [StateDir (opts s), path d]) (perm d))
         (take k directorySettings) @
       tail \<and>
     (tail = [] \<and> k = 0 \<and> (\<exists>e. r = Some (Errorf (''create '' @ smbConfPath s) e)) \<or>
      tail = [EvClose (smbConfPath s)] \<and> 0 < k \<and>
        (\<exists>e. r = Some (Errorf (''create '' @
                 filepath_Join [StateDir (opts s), path (directorySettings ! (k - 1))]) e)) \<or>
      tail = [EvExecute (smbConfPath s), EvClose (smbConfPath s)] \<and>
        k = length directorySettings \<and>
        (\<forall>d\<in>set directorySettings.
           \<exists>n. lookup w1 (filepath_Join [StateDir (opts s), path d]) = Inr n \<and> IsDir n \<and>
               (lookup w (filepath_Join [StateDir (opts s), path d]) = Inl ENOENT \<longrightarrow>
                n = Dir (perm d))) \<and>
        (r = None \<or> (\<exists>e. r = Some (Errorf ''execute smb.conf template'' e))))"
proof -
  let ?p = "smbConfPath s"
  let ?ev = "\<lambda>d. EvMkdirAll (filepath_Join [StateDir (opts s), path d]) (perm d)"
  let ?head = "[EvStat ?p, EvOpenFile ?p [O_CREATE, O_WRONLY] mode_0644]"
  note cases = init_absent [OF stat_absent [OF assms(1) assms(2)] assms(3)]
  from cases consider
    (nofile) "r = Some (Errorf (''create '' @ ?p) (PathError ''open'' ?p ENOENT))"
      "w1 = emit (EvOpenFile ?p [O_CREATE, O_WRONLY] mode_0644) (emit (EvStat ?p) w)"
  | (nodir) j e where "j < length directorySettings"
      "r = Some (Errorf (''create '' @
             filepath_Join [StateDir (opts s), path (directorySettings ! j)]) e)"
      "trace w1 = trace w @ ?head @ map ?ev (take (Suc j) directorySettings) @ [EvClose ?p]"
  | (alldirs) "\<forall>d\<in>set directorySettings.
         \<exists>n. lookup w1 (filepath_Join [StateDir (opts s), path d]) = Inr n \<and> IsDir n \<and>
             (lookup w (filepath_Join [StateDir (opts s), path d]) = Inl ENOENT \<longrightarrow>
              n = Dir (perm d))"
      "trace w1 = trace w @ ?head @ map ?ev directorySettings @ [EvExecute ?p, EvClose ?p]"
      "r = None \<or> (\<exists>e. r = Some (Errorf ''execute smb.conf template'' e))"
    by blast
  then show ?thesis
  proof cases
    case nofile
    then have "0 \<le> length directorySettings \<and>
        trace w1 = trace w @ ?head @ map ?ev (take 0 directorySettings) @ [] \<and>
        [] = ([] :: event list) \<and> (0::nat) = 0 \<and>
        (\<exists>e. r = Some (Errorf (''create '' @ ?p) e))"
      by simp
    then show ?thesis by blast
  next
    case nodir
    then have "Suc j \<le> length directorySettings \<and>
        trace w1 = trace w @ ?head @ map ?ev (take (Suc j) directorySettings) @ [EvClose ?p] \<and>
        [EvClose ?p] = [EvClose ?p] \<and> 0 < Suc j \<and>
        (\<exists>e. r = Some (Errorf (''create '' @
            filepath_Join [StateDir (opts s), path (directorySettings ! (Suc j - 1))]) e))"
      by simp
    then show ?thesis by blast
  next
    case alldirs
    then have "length directorySettings \<le> length directorySettings \<and>
        trace w1 = trace w @ ?head @
          map ?ev (take (length directorySettings) directorySettings) @
          [EvExecute ?p, EvClose ?p]"
      by simp
    with alldirs show ?thesis by blast
  qed
qed

theorem initSMBConfIfNecessary_order_witness:
  "fst (os_Stat pid_file_world (smbConfPath example_server)) =
     Inl (PathError ''stat'' ''/s/smb.conf'' ENOENT) \<and>
   os_IsNotExist (PathError ''stat'' ''/s/smb.conf'' ENOENT) \<and>
   (\<exists>k tail. k \<le> length directorySettings \<and>
     trace (snd (initSMBConfIfNecessary example_server pid_file_world)) =
       trace pid_file_world @
       [EvStat (smbConfPath example_server),
        EvOpenFile (smbConfPath example_server) [O_CREATE, O_WRONLY] mode_0644] @
       map (\<lambda>d. EvMkdirAll (filepath_Join [StateDir (opts example_server), path d]) (perm d))
         (take k directorySettings) @
       tail \<and>
     tail = [EvClose (smbConfPath example_server)] \<and> k = 3)"
proof -
  have b: "os_IsNotExist (PathError ''stat'' ''/s/smb.conf'' ENOENT)" by simp
  have c: "initSMBConfIfNecessary example_server pid_file_world =
      (fst (initSMBConfIfNecessary example_server pid_file_world),
       snd (initSMBConfIfNecessary example_server pid_file_world))"
    by simp
  have t: "trace (snd (initSMBConfIfNecessary example_server pid_file_world)) =
     [EvStat ''/s/smb.conf'',
      EvOpenFile ''/s/smb.conf'' [O_CREATE, O_WRONLY] mode_0644,
      EvMkdirAll ''/s'' mode_0755,
      EvMkdirAll ''/s/log'' mode_0755,
      EvMkdirAll ''/s/pid'' mode_0755,
      EvClose ''/s/smb.conf'']"
    by (simp add: eval_simps)
  from initSMBConfIfNecessary_order [OF stat_pid_file_world b c]
  obtain k tail where k: "k \<le> length directorySettings"
    and tr: "trace (snd (initSMBConfIfNecessary example_server pid_file_world)) =
       trace pid_file_world @
       [EvStat (smbConfPath example_server),
        EvOpenFile (smbConfPath example_server) [O_CREATE, O_WRONLY] mode_0644] @
       map (\<lambda>d. EvMkdirAll (filepath_Join [StateDir (opts example_server), path d]) (perm d))
         (take k directorySettings) @
       tail"
    and tl: "tail = [] \<and> k = 0 \<or>
       tail = [EvClose (smbConfPath example_server)] \<and> 0 < k \<or>
       tail = [EvExecute (smbConfPath example_server), EvClose (smbConfPath example_server)] \<and>
         k = length directorySettings"
    by blast
  have e0: "trace pid_file_world = []"
    by (simp add: pid_file_world_def empty_world_def)
  from arg_cong [OF tr, of length]
  have "length (trace (snd (initSMBConfIfNecessary example_server pid_file_world))) =
      2 + min k (length directorySettings) + length tail"
    by (simp add: e0)
  then have len: "6 = 2 + min k (length directorySettings) + length tail"
    unfolding t by simp
  have "length directorySettings = 11" by (simp add: directorySettings_def)
  with tl len k have "tail = [EvClose (smbConfPath example_server)] \<and> k = 3"
    by auto
  with k tr stat_pid_file_world b show ?thesis by blast
qed

section \<open>Lemmas on start and Start\<close>

lemma start_listen_failed:
  "listen_result w = Inl e \<Longrightarrow>
   start s w = (Some (Errorf ''listen'' (OpError ''listen'' e)), s,
                emit (EvListen ''tcp'' ''127.0.0.1:0'') w)"
  by (simp add: start_def net_Listen_def)

lemma start_listening:
  assumes "listen_result w = Inr p"
  shows "start s w =
    (let c = smbd_cmd s p;
         s2 = s\<lparr>Port := p, cmd := Some c\<rparr>;
         w3 = w\<lparr>trace := trace w @
                [EvListen ''tcp'' ''127.0.0.1:0'', EvListenerClose p,
                 EvCommand (SMBDCommand (opts s)) (smbd_args s p)]\<rparr>
     in case stdout_pipe_fault w of
          Some e \<Rightarrow> (Some (Errorf ''stdout pipe'' (SyscallError ''pipe2'' e)), s2,
                     emit EvStdoutPipe w3)
        | None \<Rightarrow>
            (case stderr_pipe_fault w of
               Some e \<Rightarrow> (Some (Errorf ''stderr pipe'' (SyscallError ''pipe2'' e)), s2,
                          emit EvStderrPipe (emit EvStdoutPipe w3))
             | None \<Rightarrow>
                 (None, s2,
                  w3\<lparr>trace := trace w3 @
                    [EvStdoutPipe, EvStderrPipe, EvGo CopyStdout, EvGo CopyStderr,
                     EvGo (Supervise c)]\<rparr>)))"
  using assms
  by (simp add: start_def net_Listen_def listener_Close_def exec_Command_def
      cmd_StdoutPipe_def cmd_StderrPipe_def emit_def smbd_cmd_def smbd_args_def Let_def
      split: option.splits)

lemma start_ok:
  assumes "start s w = (None, s1, w1)"
  shows "\<exists>p. listen_result w = Inr p \<and>
     stdout_pipe_fault w = None \<and> stderr_pipe_fault w = None \<and>
     s1 = s\<lparr>Port := p, cmd := Some (smbd_cmd s p)\<rparr> \<and>
     w1 = w\<lparr>trace := trace w @
            [EvListen ''tcp'' ''127.0.0.1:0'', EvListenerClose p,
             EvCommand (SMBDCommand (opts s)) (smbd_args s p),
             EvStdoutPipe, EvStderrPipe, EvGo CopyStdout, EvGo CopyStderr,
             EvGo (Supervise (smbd_cmd s p))]\<rparr>"
proof (cases "listen_result w")
  case (Inl e)
  from start_listen_failed [OF Inl] assms show ?thesis by simp
next
  case (Inr p)
  from start_listening [OF Inr, of s] assms Inr show ?thesis
    by (auto simp: Let_def split: option.splits)
qed

lemma start_error:
  assumes "start s w = (Some err, s1, w1)"
  shows "(\<exists>e. listen_result w = Inl e \<and> err = Errorf ''listen'' (OpError ''listen'' e)) \<or>
     (\<exists>e. stdout_pipe_fault w = Some e \<and>
          err = Errorf ''stdout pipe'' (SyscallError ''pipe2'' e)) \<or>
     (\<exists>e. stderr_pipe_fault w = Some e \<and>
          err = Errorf ''stderr pipe'' (SyscallError ''pipe2'' e))"
proof (cases "listen_result w")
  case (Inl e)
  from start_listen_failed [OF Inl] assms Inl show ?thesis by simp
next
  case (Inr p)
  from start_listening [OF Inr, of s] assms show ?thesis
    by (auto simp: Let_def split: option.splits)
qed




text \<open>The four ways through \<open>Start\<close>.\<close>

lemma Start_cases:
  assumes "Start os w = (r, w3)"
  obtains
    (mkdir) err where "os_MkdirAll w (StateDir os) mode_0755 = (Some err, w3)"
      "r = Inl (Errorf ''create state directory'' err)"
  | (init) w1 err where "os_MkdirAll w (StateDir os) mode_0755 = (None, w1)"
      "initSMBConfIfNecessary (new_server os) w1 = (Some err, w3)"
      "r = Inl (Errorf ''init smb.conf'' err)"
  | (start) w1 w2 err s1 where "os_MkdirAll w (StateDir os) mode_0755 = (None, w1)"
      "initSMBConfIfNecessary (new_server os) w1 = (None, w2)"
      "start (new_server os) w2 = (Some err, s1, w3)"
      "r = Inl (Errorf ''start'' err)"
  | (ok) w1 w2 s1 where "os_MkdirAll w (StateDir os) mode_0755 = (None, w1)"
      "initSMBConfIfNecessary (new_server os) w1 = (None, w2)"
      "start (new_server os) w2 = (None, s1, w3)"
      "r = Inr s1"
proof -
  obtain r1 w1 where mk: "os_MkdirAll w (StateDir os) mode_0755 = (r1, w1)"
    by (cases "os_MkdirAll w (StateDir os) mode_0755")
  obtain r2 w2 where ini: "initSMBConfIfNecessary (new_server os) w1 = (r2, w2)"
    by (cases "initSMBConfIfNecessary (new_server os) w1")
  obtain r3 s1 w4 where st: "start (new_server os) w2 = (r3, s1, w4)"
    by (cases "start (new_server os) w2")
  show ?thesis
  proof (cases r1)
    case (Some err)
    with assms mk show ?thesis by (intro mkdir [of err]) (simp_all add: Start_def)
  next
    case None
    note r1 = this
    show ?thesis
    proof (cases r2)
      case (Some err)
      with assms mk r1 ini show ?thesis
        by (intro init [of w1 err]) (simp_all add: Start_def Let_def new_server_def)
    next
      case None
      note r2 = this
      show ?thesis
      proof (cases r3)
        case (Some err)
        with assms mk r1 ini r2 st show ?thesis
          by (intro start [of w1 w2 err s1]) (simp_all add: Start_def Let_def new_server_def)
      next
        case None
        with assms mk r1 ini r2 st show ?thesis
          by (intro ok [of w1 w2 s1]) (simp_all add: Start_def Let_def new_server_def)
      qed
    qed
  qed
qed


section \<open>Port reservation and the command line\<close>

lemmas eval_start_simps =
  Start_def start_def net_Listen_def listener_Close_def exec_Command_def cmd_StdoutPipe_def
  cmd_StderrPipe_def Sprintf_d_def decimal.simps Let_def no_port_world_def no_smbd_world_def
  clean_exit_world_def example_started_def


lemma Start_no_smbd_world: "fst (Start example_opts no_smbd_world) = Inr example_started"
  by (simp add: eval_simps eval_start_simps)

text \<open>
  C7. \<open>start\<close> binds a TCP listener to \<open>127.0.0.1:0\<close>, stores the port of the listener
  in the server's \<open>Port\<close> field and closes the listener, all before it builds the
  command; afterwards no listener of this call is open. When the listen fails, the
  failure is returned, wrapped, and nothing else is done. On success the reported port
  is the one the system assigned, which is not zero (the system assigns ports from 1
  to 65535).
\<close>

theorem start_port_reservation:
  "(listen_result w = Inl e \<longrightarrow>
      start s w = (Some (Errorf ''listen'' (OpError ''listen'' e)), s,
                   emit (EvListen ''tcp'' ''127.0.0.1:0'') w)) \<and>
   (listen_result w = Inr p \<longrightarrow>
      Port (fst (snd (start s w))) = p \<and>
      listening (snd (snd (start s w))) = listening w \<and>
      (\<exists>rest. trace (snd (snd (start s w))) =
         trace w @
         [EvListen ''tcp'' ''127.0.0.1:0'',
          EvListenerClose p,
          EvCommand (SMBDCommand (opts s))
            [''--configfile='' @ smbConfPath s, ''--port='' @ Sprintf_d p,
             ''--foreground'', ''--no-process-group'', ''--debug-stdout'']] @
         rest)) \<and>
   (assigns_real_port w \<longrightarrow> fst (start s w) = None \<longrightarrow>
      Port (fst (snd (start s w))) \<noteq> 0 \<and> listen_result w = Inr (Port (fst (snd (start s w)))))"
proof -
  have a: "start s w = (Some (Errorf ''listen'' (OpError ''listen'' e)), s,
                   emit (EvListen ''tcp'' ''127.0.0.1:0'') w)"
    if "listen_result w = Inl e"
    using start_listen_failed [OF that] .
  have b: "Port (fst (snd (start s w))) = p \<and>
      listening (snd (snd (start s w))) = listening w \<and>
      (\<exists>rest. trace (snd (snd (start s w))) =
         trace w @
         [EvListen ''tcp'' ''127.0.0.1:0'',
          EvListenerClose p,
          EvCommand (SMBDCommand (opts s))
            [''--configfile='' @ smbConfPath s, ''--port='' @ Sprintf_d p,
             ''--foreground'', ''--no-process-group'', ''--debug-stdout'']] @
         rest)"
    if "listen_result w = Inr p"
    using start_listening [OF that, of s]
    by (cases "stdout_pipe_fault w"; cases "stderr_pipe_fault w")
       (simp_all add: Let_def smbd_args_def)
  have c: "Port (fst (snd (start s w))) \<noteq> 0 \<and>
      listen_result w = Inr (Port (fst (snd (start s w))))"
    if real: "assigns_real_port w" and ok: "fst (start s w) = None"
  proof -
    from ok have "start s w = (None, fst (snd (start s w)), snd (snd (start s w)))"
      by (simp add: prod_eq_iff)
    from start_ok [OF this] obtain q where q: "listen_result w = Inr q"
      "fst (snd (start s w)) = s\<lparr>Port := q, cmd := Some (smbd_cmd s q)\<rparr>"
      by blast
    from q(2) have "Port (fst (snd (start s w))) = q" by simp
    with q(1) real show ?thesis by (simp add: assigns_real_port_def)
  qed
  from a b c show ?thesis by blast
qed

theorem start_port_reservation_witness:
  "listen_result no_port_world = Inl EADDRNOTAVAIL \<and>
   start example_server no_port_world =
     (Some (Errorf ''listen'' (OpError ''listen'' EADDRNOTAVAIL)), example_server,
      emit (EvListen ''tcp'' ''127.0.0.1:0'') no_port_world) \<and>
   listen_result empty_world = Inr 40123 \<and>
   assigns_real_port empty_world \<and>
   fst (start example_server empty_world) = None \<and>
   Port (fst (snd (start example_server empty_world))) = 40123 \<and>
   Port (fst (snd (start example_server empty_world))) \<noteq> 0 \<and>
   listening (snd (snd (start example_server empty_world))) = listening empty_world"
proof -
  have a: "listen_result no_port_world = Inl EADDRNOTAVAIL"
    by (simp add: no_port_world_def)
  have b: "listen_result empty_world = Inr 40123" by (simp add: empty_world_def)
  have c: "assigns_real_port empty_world"
    by (simp add: assigns_real_port_def empty_world_def)
  have d: "fst (start example_server empty_world) = None"
    by (simp add: eval_simps eval_start_simps)
  from start_port_reservation [of no_port_world EADDRNOTAVAIL example_server 0]
       start_port_reservation [of empty_world EADDRNOTAVAIL example_server 40123]
       a b c d
  show ?thesis by simp
qed



section \<open>The state directory\<close>









section \<open>Start does not look at what the daemon does\<close>

lemma emit_launch: "emit ev (w\<lparr>launch := l\<rparr>) = (emit ev w)\<lparr>launch := l\<rparr>"
  by (simp add: emit_def)

lemma lookup_launch [simp]: "lookup (w\<lparr>launch := l\<rparr>) p = lookup w p"
  by (rule lookup_cong_fs) simp_all

lemma mkdir_launch:
  "mkdir (w\<lparr>launch := l\<rparr>) p m = (fst (mkdir w p m), (snd (mkdir w p m))\<lparr>launch := l\<rparr>)"
  by (simp add: mkdir_def split: option.splits)

lemma mkdir_all_launch:
  "mkdir_all (w\<lparr>launch := l\<rparr>) p m =
     (fst (mkdir_all w p m), (snd (mkdir_all w p m))\<lparr>launch := l\<rparr>)"
proof (induction w p m rule: mkdir_all.induct)
  case (1 w p m)
  show ?case
  proof (cases "lookup w p")
    case (Inr n)
    then show ?thesis
      by (simp add: mkdir_all.simps [of w p m] mkdir_all.simps [of "w\<lparr>launch := l\<rparr>" p m])
  next
    case (Inl e0)
    define par where "par = (if mkdir_parent p \<noteq> [] then mkdir_all w (mkdir_parent p) m
                             else (None, w))"
    define par' where "par' = (if mkdir_parent p \<noteq> []
                               then mkdir_all (w\<lparr>launch := l\<rparr>) (mkdir_parent p) m
                               else (None, w\<lparr>launch := l\<rparr>))"
    have pp: "par' = (fst par, (snd par)\<lparr>launch := l\<rparr>)"
    proof (cases "mkdir_parent p \<noteq> []")
      case True
      with "1.IH" [OF Inl True] show ?thesis by (simp add: par_def par'_def)
    next
      case False
      then show ?thesis by (simp add: par_def par'_def)
    qed
    have lhs: "mkdir_all (w\<lparr>launch := l\<rparr>) p m =
        (case par' of
           (Some err, w1) \<Rightarrow> (Some err, w1)
         | (None, w1) \<Rightarrow>
             (case mkdir w1 p m of
                (None, w2) \<Rightarrow> (None, w2)
              | (Some e, w2) \<Rightarrow>
                  (case lookup w2 p of
                     Inr n \<Rightarrow> if IsDir n then (None, w2) else (Some (PathError ''mkdir'' p e), w2)
                   | Inl e1 \<Rightarrow> (Some (PathError ''mkdir'' p e), w2))))"
      using Inl by (simp add: mkdir_all.simps [of "w\<lparr>launch := l\<rparr>" p m] par'_def)
    have rhs: "mkdir_all w p m =
        (case par of
           (Some err, w1) \<Rightarrow> (Some err, w1)
         | (None, w1) \<Rightarrow>
             (case mkdir w1 p m of
                (None, w2) \<Rightarrow> (None, w2)
              | (Some e, w2) \<Rightarrow>
                  (case lookup w2 p of
                     Inr n \<Rightarrow> if IsDir n then (None, w2) else (Some (PathError ''mkdir'' p e), w2)
                   | Inl e1 \<Rightarrow> (Some (PathError ''mkdir'' p e), w2))))"
      using Inl by (simp add: mkdir_all.simps [of w p m] par_def)
    obtain r0 w0 where par: "par = (r0, w0)" by (cases par)
    obtain r2 w2 where mk: "mkdir w0 p m = (r2, w2)" by (cases "mkdir w0 p m")
    from mkdir_launch [where w=w0 and l=l and p=p and m=m] mk
    have mk': "mkdir (w0\<lparr>launch := l\<rparr>) p m = (r2, w2\<lparr>launch := l\<rparr>)" by simp
    show ?thesis
      unfolding lhs rhs pp par
      using mk mk'
      by (cases r0; cases r2; cases "lookup w2 p") simp_all
  qed
qed

lemma os_MkdirAll_launch:
  "os_MkdirAll (w\<lparr>launch := l\<rparr>) p m =
     (fst (os_MkdirAll w p m), (snd (os_MkdirAll w p m))\<lparr>launch := l\<rparr>)"
  by (simp add: os_MkdirAll_def mkdir_all_launch emit_launch split: prod.splits)

lemma make_directories_launch:
  "make_directories s (w\<lparr>launch := l\<rparr>) ds =
     (fst (make_directories s w ds), (snd (make_directories s w ds))\<lparr>launch := l\<rparr>)"
proof (induction ds arbitrary: w)
  case Nil
  show ?case by simp
next
  case (Cons d ds)
  let ?p = "filepath_Join [StateDir (opts s), path d]"
  obtain r0 w0 where mk: "os_MkdirAll w ?p (perm d) = (r0, w0)"
    by (cases "os_MkdirAll w ?p (perm d)")
  with os_MkdirAll_launch [where w=w and l=l and p="?p" and m="perm d"]
  have mk': "os_MkdirAll (w\<lparr>launch := l\<rparr>) ?p (perm d) = (r0, w0\<lparr>launch := l\<rparr>)"
    by simp
  obtain r2 w2 where rec: "make_directories s w0 ds = (r2, w2)"
    by (cases "make_directories s w0 ds")
  with Cons.IH [where w=w0]
  have rec': "make_directories s (w0\<lparr>launch := l\<rparr>) ds = (r2, w2\<lparr>launch := l\<rparr>)"
    by simp
  from mk mk' rec rec' show ?case by (cases r0; cases r2) simp_all
qed

lemma os_Stat_launch:
  "os_Stat (w\<lparr>launch := l\<rparr>) p = (fst (os_Stat w p), (snd (os_Stat w p))\<lparr>launch := l\<rparr>)"
  by (simp add: os_Stat_eq emit_launch)

lemma os_OpenFile_launch:
  "os_OpenFile (w\<lparr>launch := l\<rparr>) p fl m =
     (fst (os_OpenFile w p fl m), (snd (os_OpenFile w p fl m))\<lparr>launch := l\<rparr>)"
  by (simp add: os_OpenFile_def Let_def emit_def split: sum.splits node.splits)

lemma template_Execute_launch:
  "template_Execute (w\<lparr>launch := l\<rparr>) t f ds =
     (fst (template_Execute w t f ds), (snd (template_Execute w t f ds))\<lparr>launch := l\<rparr>)"
  by (simp add: template_Execute_def file_Write_def emit_def
      split: sum.splits option.splits node.splits)

lemma file_Close_launch: "file_Close (w\<lparr>launch := l\<rparr>) f = (file_Close w f)\<lparr>launch := l\<rparr>"
  by (simp add: file_Close_def emit_launch)

lemma init_launch:
  "initSMBConfIfNecessary s (w\<lparr>launch := l\<rparr>) =
     (fst (initSMBConfIfNecessary s w), (snd (initSMBConfIfNecessary s w))\<lparr>launch := l\<rparr>)"
proof -
  let ?p = "smbConfPath s"
  obtain r0 w0 where st: "os_Stat w ?p = (r0, w0)" by (cases "os_Stat w ?p")
  with os_Stat_launch [where w=w and l=l and p="?p"]
  have st': "os_Stat (w\<lparr>launch := l\<rparr>) ?p = (r0, w0\<lparr>launch := l\<rparr>)" by simp
  obtain r2 w2 where op: "os_OpenFile w0 ?p [O_CREATE, O_WRONLY] mode_0644 = (r2, w2)"
    by (cases "os_OpenFile w0 ?p [O_CREATE, O_WRONLY] mode_0644")
  with os_OpenFile_launch [where w=w0 and l=l and p="?p"]
  have op': "os_OpenFile (w0\<lparr>launch := l\<rparr>) ?p [O_CREATE, O_WRONLY] mode_0644 =
      (r2, w2\<lparr>launch := l\<rparr>)" by simp
  obtain r3 w3 where md: "make_directories s w2 directorySettings = (r3, w3)"
    by (cases "make_directories s w2 directorySettings")
  with make_directories_launch [where w=w2 and l=l and s=s]
  have md': "make_directories s (w2\<lparr>launch := l\<rparr>) directorySettings =
      (r3, w3\<lparr>launch := l\<rparr>)" by simp
  show ?thesis
  proof (cases r0)
    case (Inr n)
    with st st' show ?thesis by (simp add: initSMBConfIfNecessary_def)
  next
    case (Inl err)
    note r0 = this
    show ?thesis
    proof (cases r2)
      case (Inl e2)
      with st st' r0 op op' show ?thesis by (simp add: initSMBConfIfNecessary_def)
    next
      case (Inr fh)
      note r2 = this
      show ?thesis
      proof (cases r3)
        case (Inl e3)
        with st st' r0 op op' r2 md md' show ?thesis
          by (simp add: initSMBConfIfNecessary_def template_Parse_smbConfTemplate
              file_Close_launch)
      next
        case (Inr ds1)
        obtain r4 w4 where x:
          "template_Execute w3 (projr (template_Parse smbConfTemplate)) fh ds1 = (r4, w4)"
          by (cases "template_Execute w3 (projr (template_Parse smbConfTemplate)) fh ds1")
        with template_Execute_launch [where w=w3 and l=l and f=fh and ds=ds1]
        have x': "template_Execute (w3\<lparr>launch := l\<rparr>)
            (projr (template_Parse smbConfTemplate)) fh ds1 = (r4, w4\<lparr>launch := l\<rparr>)"
          by simp
        from st st' r0 op op' r2 md md' Inr x x' show ?thesis
          by (cases r4)
             (simp_all add: initSMBConfIfNecessary_def template_Parse_smbConfTemplate
               file_Close_launch)
      qed
    qed
  qed
qed

lemma start_launch:
  "start s (w\<lparr>launch := l\<rparr>) =
     (fst (start s w), fst (snd (start s w)), (snd (snd (start s w)))\<lparr>launch := l\<rparr>)"
proof (cases "listen_result w")
  case (Inl e)
  then have "listen_result (w\<lparr>launch := l\<rparr>) = Inl e" by simp
  from start_listen_failed [OF this] start_listen_failed [OF Inl] show ?thesis
    by (simp add: emit_launch)
next
  case (Inr p)
  then have "listen_result (w\<lparr>launch := l\<rparr>) = Inr p" by simp
  from start_listening [OF this, of s] start_listening [OF Inr, of s] show ?thesis
    by (simp add: Let_def emit_def split: option.splits)
qed

lemma Start_launch:
  "Start os (w\<lparr>launch := l\<rparr>) = (fst (Start os w), (snd (Start os w))\<lparr>launch := l\<rparr>)"
proof -
  let ?s = "new_server os"
  obtain r1 w1 where mk: "os_MkdirAll w (StateDir os) mode_0755 = (r1, w1)"
    by (cases "os_MkdirAll w (StateDir os) mode_0755")
  with os_MkdirAll_launch [where w=w and l=l]
  have mk': "os_MkdirAll (w\<lparr>launch := l\<rparr>) (StateDir os) mode_0755 =
      (r1, w1\<lparr>launch := l\<rparr>)" by simp
  obtain r2 w2 where ini: "initSMBConfIfNecessary ?s w1 = (r2, w2)"
    by (cases "initSMBConfIfNecessary ?s w1")
  with init_launch [where s="?s" and w=w1 and l=l]
  have ini': "initSMBConfIfNecessary ?s (w1\<lparr>launch := l\<rparr>) = (r2, w2\<lparr>launch := l\<rparr>)"
    by simp
  obtain r3 s3 w3 where st: "start ?s w2 = (r3, s3, w3)" by (cases "start ?s w2")
  with start_launch [where s="?s" and w=w2 and l=l]
  have st': "start ?s (w2\<lparr>launch := l\<rparr>) = (r3, s3, w3\<lparr>launch := l\<rparr>)" by simp
  from mk mk' ini ini' st st' show ?thesis
    by (cases r1; cases r2; cases r3) (simp_all add: Start_def Let_def new_server_def)
qed

section \<open>Launch failures and the supervision loop\<close>

lemma supervise_never_returns: "supervise w c i evs = None"
proof (cases "supervise w c i evs")
  case None
  then show ?thesis .
next
  case (Some r)
  have False
  proof (rule supervise.raw_induct [where P = "\<lambda>_ _ _ _ _. False", OF _ Some])
    fix f :: "world \<Rightarrow> Cmd \<Rightarrow> nat \<Rightarrow> sup_event list \<Rightarrow> sup_event list option"
      and w c i evs y
    assume "\<And>w c i evs y. f w c i evs = Some y \<Longrightarrow> False"
      and "f w c (Suc i) (evs @ supervise_body w c i) = Some y"
    then show False by blast
  qed
  then show ?thesis ..
qed

lemma supervise_unroll:
  "supervise w c 0 (supervise_upto w c 0) = supervise w c n (supervise_upto w c n)"
proof (induction n)
  case 0
  show ?case ..
next
  case (Suc n)
  have "supervise w c n (supervise_upto w c n) =
      supervise w c (Suc n) (supervise_upto w c (Suc n))"
    by (subst supervise.simps) simp
  with Suc show ?case by simp
qed

lemma Start_errors:
  assumes "Start os w = (Inl err, w3)"
  shows "\<exists>e. err = Errorf ''create state directory'' e \<or>
             err = Errorf ''init smb.conf'' e \<or>
             err = Errorf ''start'' (Errorf ''listen'' e) \<or>
             err = Errorf ''start'' (Errorf ''stdout pipe'' e) \<or>
             err = Errorf ''start'' (Errorf ''stderr pipe'' e)"
  using assms
proof (cases rule: Start_cases)
  case (mkdir e)
  then show ?thesis by blast
next
  case (init w1 e)
  then show ?thesis by blast
next
  case (start w1 w2 e s1)
  from start_error [OF start(3)] start(4) show ?thesis by auto
next
  case (ok w1 w2 s1)
  then show ?thesis by simp
qed

lemma Start_no_port_world:
  "fst (Start example_opts no_port_world) =
     Inl (Errorf ''start'' (Errorf ''listen'' (OpError ''listen'' EADDRNOTAVAIL)))"
  by (simp add: eval_simps eval_start_simps)

text \<open>
  C1, as the claim states it, fails: on a machine where the daemon's executable is
  missing, so that every run of the command fails to launch, \<open>Start\<close> returns a
  server and no error.
\<close>

theorem Start_launch_failure_counterexample:
  "(\<forall>n. cmd_Run no_smbd_world example_cmd n =
      Some (PathError ''fork/exec'' ''/usr/sbin/smbd'' ENOENT)) \<and>
   cmd example_started = Some example_cmd \<and>
   SMBDCommand example_opts = Path example_cmd \<and>
   fst (Start example_opts no_smbd_world) = Inr example_started"
  using Start_no_smbd_world
  by (simp add: cmd_Run_def no_smbd_world_def example_cmd_def example_started_def
      example_opts_def)

text \<open>
  C1, amended. Whether the daemon can be launched has no part in what \<open>Start\<close>
  returns: the result is the same for every behaviour of the executable, and an error
  of \<open>Start\<close> is one of creating the state directory, of the bootstrap, of the listen or
  of one of the two pipes. A launch that fails shows in the supervision goroutine only,
  where the error is printed and the backoff follows.
\<close>

theorem Start_ignores_launch:
  "fst (Start os (w\<lparr>launch := l\<rparr>)) = fst (Start os w) \<and>
   (Start os w = (Inl err, w3) \<longrightarrow>
      (\<exists>e. err = Errorf ''create state directory'' e \<or>
           err = Errorf ''init smb.conf'' e \<or>
           err = Errorf ''start'' (Errorf ''listen'' e) \<or>
           err = Errorf ''start'' (Errorf ''stdout pipe'' e) \<or>
           err = Errorf ''start'' (Errorf ''stderr pipe'' e))) \<and>
   (launch w (Path c) i = NotStarted e \<longrightarrow>
      supervise_body w c i =
        [SupRun i,
         SupPrintf (''smbd exited, will restart: %v'' @ [NL]) e,
         SupSleep (1 * Second)])"
proof -
  have a: "fst (Start os (w\<lparr>launch := l\<rparr>)) = fst (Start os w)"
    by (simp add: Start_launch)
  have b: "supervise_body w c i =
        [SupRun i,
         SupPrintf (''smbd exited, will restart: %v'' @ [NL]) e,
         SupSleep (1 * Second)]"
    if "launch w (Path c) i = NotStarted e"
    using that by (simp add: supervise_body_def cmd_Run_def)
  from a b Start_errors show ?thesis by blast
qed

theorem Start_ignores_launch_witness:
  "fst (Start example_opts no_smbd_world) = fst (Start example_opts empty_world) \<and>
   Start example_opts no_port_world =
     (Inl (Errorf ''start'' (Errorf ''listen'' (OpError ''listen'' EADDRNOTAVAIL))),
      snd (Start example_opts no_port_world)) \<and>
   launch no_smbd_world (Path example_cmd) 0 =
     NotStarted (PathError ''fork/exec'' ''/usr/sbin/smbd'' ENOENT) \<and>
   supervise_body no_smbd_world example_cmd 0 =
     [SupRun 0,
      SupPrintf (''smbd exited, will restart: %v'' @ [NL])
        (PathError ''fork/exec'' ''/usr/sbin/smbd'' ENOENT),
      SupSleep (1 * Second)]"
proof -
  have a: "Start example_opts no_port_world =
     (Inl (Errorf ''start'' (Errorf ''listen'' (OpError ''listen'' EADDRNOTAVAIL))),
      snd (Start example_opts no_port_world))"
    using Start_no_port_world by (simp add: prod_eq_iff)
  have b: "launch no_smbd_world (Path example_cmd) 0 =
      NotStarted (PathError ''fork/exec'' ''/usr/sbin/smbd'' ENOENT)"
    by (simp add: no_smbd_world_def example_cmd_def)
  have c: "no_smbd_world =
      empty_world\<lparr>launch := (\<lambda>p n. NotStarted (PathError ''fork/exec'' p ENOENT))\<rparr>"
    by (simp add: no_smbd_world_def)
  from Start_ignores_launch
         [where os=example_opts and w=empty_world
            and l="\<lambda>p n. NotStarted (PathError ''fork/exec'' p ENOENT)"]
  have d: "fst (Start example_opts no_smbd_world) = fst (Start example_opts empty_world)"
    unfolding c by blast
  from Start_ignores_launch
         [where w=no_smbd_world and c=example_cmd and i=0
            and e="PathError ''fork/exec'' ''/usr/sbin/smbd'' ENOENT"] b
  have e: "supervise_body no_smbd_world example_cmd 0 =
     [SupRun 0,
      SupPrintf (''smbd exited, will restart: %v'' @ [NL])
        (PathError ''fork/exec'' ''/usr/sbin/smbd'' ENOENT),
      SupSleep (1 * Second)]"
    by blast
  from a b d e show ?thesis by blast
qed

text \<open>
  C2, as the claim states it, fails for a zero exit status: when the daemon exits
  with status 0, \<open>Run\<close> returns nil and the loop calls \<open>Run\<close> again at once, with no
  wait in between; the first sleep comes after the second \<open>Run\<close>, which fails.
\<close>

theorem supervise_backoff_counterexample:
  "launch clean_exit_world (Path example_cmd) 0 = Exited 0 \<and>
   cmd_Run clean_exit_world example_cmd 0 = None \<and>
   supervise_upto clean_exit_world example_cmd (Suc (Suc 0)) =
     [SupPrintln ''Running smbd in a loop'',
      SupRun 0,
      SupRun 1,
      SupPrintf (''smbd exited, will restart: %v'' @ [NL])
        (ErrorString ''exec: already started''),
      SupSleep (1 * Second)]"
  by (simp add: clean_exit_world_def cmd_Run_def supervise_body_def)

text \<open>
  C2, amended. The supervision loop never returns: after any number of turns it is at
  its next turn. A turn whose \<open>Run\<close> returns an error (a non-zero exit status or a
  failed launch) prints the error and sleeps one second before the next turn; a turn
  whose \<open>Run\<close> returns nil (exit status 0) is followed by the next turn at once. What
  the daemon does never changes the result of \<open>Start\<close>.
\<close>

theorem supervise_loop:
  "supervise w c i evs = None \<and>
   supervise w c 0 (supervise_upto w c 0) = supervise w c n (supervise_upto w c n) \<and>
   (launch w (Path c) n = Exited 0 \<longrightarrow> cmd_Run w c n = None) \<and>
   (launch w (Path c) n = Exited code \<longrightarrow> code \<noteq> 0 \<longrightarrow>
      cmd_Run w c n = Some (ExitError code)) \<and>
   (launch w (Path c) n = NotStarted e \<longrightarrow> cmd_Run w c n = Some e) \<and>
   (cmd_Run w c n = Some err \<longrightarrow>
      supervise_upto w c (Suc n) =
        supervise_upto w c n @
        [SupRun n, SupPrintf (''smbd exited, will restart: %v'' @ [NL]) err,
         SupSleep (1 * Second)]) \<and>
   (cmd_Run w c n = None \<longrightarrow>
      supervise_upto w c (Suc n) = supervise_upto w c n @ [SupRun n]) \<and>
   fst (Start os (w\<lparr>launch := l\<rparr>)) = fst (Start os w)"
proof -
  have a: "fst (Start os (w\<lparr>launch := l\<rparr>)) = fst (Start os w)"
    by (simp add: Start_launch)
  have b: "(launch w (Path c) n = Exited 0 \<longrightarrow> cmd_Run w c n = None) \<and>
   (launch w (Path c) n = Exited code \<longrightarrow> code \<noteq> 0 \<longrightarrow>
      cmd_Run w c n = Some (ExitError code)) \<and>
   (launch w (Path c) n = NotStarted e \<longrightarrow> cmd_Run w c n = Some e)"
    by (simp add: cmd_Run_def)
  have d: "(cmd_Run w c n = Some err \<longrightarrow>
      supervise_upto w c (Suc n) =
        supervise_upto w c n @
        [SupRun n, SupPrintf (''smbd exited, will restart: %v'' @ [NL]) err,
         SupSleep (1 * Second)]) \<and>
   (cmd_Run w c n = None \<longrightarrow>
      supervise_upto w c (Suc n) = supervise_upto w c n @ [SupRun n])"
    by (simp add: supervise_body_def)
  from a b d supervise_never_returns [of w c i evs] supervise_unroll [of w c n]
  show ?thesis by blast
qed

theorem supervise_loop_witness:
  "launch clean_exit_world (Path example_cmd) 0 = Exited 0 \<and>
   cmd_Run clean_exit_world example_cmd 0 = None \<and>
   supervise_upto clean_exit_world example_cmd (Suc 0) =
     supervise_upto clean_exit_world example_cmd 0 @ [SupRun 0] \<and>
   launch empty_world (Path example_cmd) 0 = Exited 1 \<and>
   (1::int) \<noteq> 0 \<and>
   cmd_Run empty_world example_cmd 0 = Some (ExitError 1) \<and>
   supervise_upto empty_world example_cmd (Suc 0) =
     supervise_upto empty_world example_cmd 0 @
     [SupRun 0, SupPrintf (''smbd exited, will restart: %v'' @ [NL]) (ExitError 1),
      SupSleep (1 * Second)] \<and>
   launch empty_world (Path example_cmd) 1 =
     NotStarted (ErrorString ''exec: already started'') \<and>
   cmd_Run empty_world example_cmd 1 = Some (ErrorString ''exec: already started'') \<and>
   supervise_upto empty_world example_cmd (Suc 1) =
     supervise_upto empty_world example_cmd 1 @
     [SupRun 1,
      SupPrintf (''smbd exited, will restart: %v'' @ [NL])
        (ErrorString ''exec: already started''),
      SupSleep (1 * Second)]"
proof -
  have a: "launch clean_exit_world (Path example_cmd) 0 = Exited 0"
    by (simp add: clean_exit_world_def)
  have b: "launch empty_world (Path example_cmd) 0 = Exited 1"
    by (simp add: empty_world_def)
  have c: "launch empty_world (Path example_cmd) 1 =
      NotStarted (ErrorString ''exec: already started'')"
    by (simp add: empty_world_def)
  from supervise_loop [where w=clean_exit_world and c=example_cmd and n=0] a
  have A: "cmd_Run clean_exit_world example_cmd 0 = None \<and>
     supervise_upto clean_exit_world example_cmd (Suc 0) =
       supervise_upto clean_exit_world example_cmd 0 @ [SupRun 0]"
    by blast
  from supervise_loop [where w=empty_world and c=example_cmd and n=0 and code=1
                          and err="ExitError 1"] b
  have B: "cmd_Run empty_world example_cmd 0 = Some (ExitError 1) \<and>
     supervise_upto empty_world example_cmd (Suc 0) =
       supervise_upto empty_world example_cmd 0 @
       [SupRun 0, SupPrintf (''smbd exited, will restart: %v'' @ [NL]) (ExitError 1),
        SupSleep (1 * Second)]"
    by simp
  from supervise_loop [where w=empty_world and c=example_cmd and n=1
                          and e="ErrorString ''exec: already started''"
                          and err="ErrorString ''exec: already started''"] c
  have C: "cmd_Run empty_world example_cmd 1 = Some (ErrorString ''exec: already started'') \<and>
     supervise_upto empty_world example_cmd (Suc 1) =
       supervise_upto empty_world example_cmd 1 @
       [SupRun 1,
        SupPrintf (''smbd exited, will restart: %v'' @ [NL])
          (ErrorString ''exec: already started''),
        SupSleep (1 * Second)]"
    by blast
  from a b c A B C show ?thesis by simp
qed

end
